theory Spec2Isabelle
  imports Complex_Main
begin

section \<open>Strings as the scripts use them\<close>

text \<open>
  A string is a list of characters; one \<^typ>\<open>char\<close> stands for one code unit of the
  script's string, so \<^const>\<open>length\<close> is the script's \<^verbatim>\<open>.length\<close>.
\<close>

definition is_space :: "char \<Rightarrow> bool" where
  "is_space c = (c = CHR '' '' \<or> c = CHR 0x09 \<or> c = CHR 0x0A \<or> c = CHR 0x0B
               \<or> c = CHR 0x0C \<or> c = CHR 0x0D \<or> c = CHR 0xA0)"

text \<open>\<^verbatim>\<open>s.trim()\<close>: white space removed at both ends.\<close>

definition trim :: "string \<Rightarrow> string" where
  "trim s = rev (dropWhile is_space (rev (dropWhile is_space s)))"

text \<open>
  \<^verbatim>\<open>s.substring(0, n)\<close> for a number \<open>n\<close>: the fraction of \<open>n\<close> is dropped, a
  negative \<open>n\<close> counts as 0 and an \<open>n\<close> beyond the length as the length.
\<close>

definition substring0 :: "string \<Rightarrow> real \<Rightarrow> string" where
  "substring0 s n = take (nat \<lfloor>n\<rfloor>) s"

definition lower_char :: "char \<Rightarrow> char" where
  "lower_char c =
     (case map_of (zip ''ABCDEFGHIJKLMNOPQRSTUVWXYZ'' ''abcdefghijklmnopqrstuvwxyz'') c of
        None \<Rightarrow> c
      | Some l \<Rightarrow> l)"

text \<open>\<^verbatim>\<open>s.toLowerCase()\<close> on the letters a tag name is made of.\<close>

definition toLowerCase :: "string \<Rightarrow> string" where
  "toLowerCase s = map lower_char s"

definition digit_char :: "nat \<Rightarrow> char" where
  "digit_char k = ''0123456789'' ! (k mod 10)"

text \<open>The decimal rendering of a number inside a template string.\<close>

fun string_of_nat :: "nat \<Rightarrow> string" where
  "string_of_nat n =
     (if n < 10 then [digit_char n] else string_of_nat (n div 10) @ [digit_char n])"

text \<open>\<^verbatim>\<open>xs.join('.')\<close>.\<close>

fun join_dot :: "string list \<Rightarrow> string" where
  "join_dot [] = []"
| "join_dot [x] = x"
| "join_dot (x # y # ys) = x @ ''.'' @ join_dot (y # ys)"

text \<open>
  The tokens of a \<^verbatim>\<open>class\<close> attribute: maximal runs of characters that are not
  white space.
\<close>

fun tokens_acc :: "string \<Rightarrow> string \<Rightarrow> string list" where
  "tokens_acc cur [] = (if cur = [] then [] else [rev cur])"
| "tokens_acc cur (c # cs) =
     (if is_space c \<and> c \<noteq> CHR 0x0B \<and> c \<noteq> CHR 0xA0
      then (if cur = [] then tokens_acc [] cs else rev cur # tokens_acc [] cs)
      else tokens_acc (c # cur) cs)"

text \<open>A token list keeps the first occurrence of every token.\<close>

fun first_occurrences :: "string list \<Rightarrow> string list \<Rightarrow> string list" where
  "first_occurrences seen [] = []"
| "first_occurrences seen (t # ts) =
     (if t \<in> set seen then first_occurrences seen ts
      else t # first_occurrences (t # seen) ts)"

text \<open>
  The selector fragment \<^verbatim>\<open>[a="v"]\<close> of a template string; the value is pasted
  as it is.
\<close>

definition attribute_equals :: "string \<Rightarrow> string \<Rightarrow> string" where
  "attribute_equals a v = ''['' @ a @ ''='' @ [CHR 0x22] @ v @ [CHR 0x22] @ '']''"

text \<open>\<^verbatim>\<open>s.split(' ')[0]\<close>: the text before the first space.\<close>

definition split_space_first :: "string \<Rightarrow> string" where
  "split_space_first s = takeWhile (\<lambda>c. c \<noteq> CHR '' '') s"

section \<open>The rendered document as the driver shows it\<close>

datatype error = DetachedError | SyntaxError | ContextDestroyed | TypeError

text \<open>
  What a script reads from a property that reflects an attribute: the attribute's string,
  or an object. On a form the properties are shadowed by the form's controls: with a
  control named \<^verbatim>\<open>id\<close> or \<^verbatim>\<open>className\<close>, \<^verbatim>\<open>el.id\<close> or \<^verbatim>\<open>el.className\<close> is that
  control. An object carries the string it converts to inside a template string.
\<close>

datatype js_value = JString string | JObject string

text \<open>\<^verbatim>\<open>if (v)\<close>: a string counts when it is not empty, an object always.\<close>

definition truthy :: "js_value \<Rightarrow> bool" where
  "truthy v = (case v of JString s \<Rightarrow> s \<noteq> [] | JObject c \<Rightarrow> True)"

text \<open>The value inside a template string.\<close>

definition to_string :: "js_value \<Rightarrow> string" where
  "to_string v = (case v of JString s \<Rightarrow> s | JObject c \<Rightarrow> c)"

text \<open>
  An element as the in-page scripts and the driver read it. \<open>el_id\<close> and
  \<open>className\<close> are the properties \<^verbatim>\<open>el.id\<close> and \<^verbatim>\<open>el.className\<close> as the scripts read
  them. \<open>parentElement\<close> is the position of the parent in the document's element
  table. \<open>opacity\<close> is
  \<^verbatim>\<open>parseFloat(style.opacity)\<close>, \<open>None\<close> when that is not a number.
  \<open>boundingBox\<close> is the answer of the driver's bounding-box read: a rejection, no
  box, or width and height. \<open>evaluate_error\<close> is the rejection of every script run
  against the element's handle, when there is one.
\<close>

record element =
  tagName :: string
  attributes :: "(string \<times> string) list"
  el_id :: js_value
  className :: js_value
  parentElement :: "nat option"
  innerText :: string
  display :: string
  visibility :: string
  opacity :: "real option"
  offsetWidth :: int
  offsetHeight :: int
  boundingBox :: "error + (real \<times> real) option"
  evaluate_error :: "error option"

text \<open>
  A document: its elements in document order, and the answer of
  \<^verbatim>\<open>document.querySelectorAll\<close> to a selector string: the positions of the matching
  elements in document order, or the exception it throws.
\<close>

record document =
  elements :: "element list"
  querySelectorAll :: "string \<Rightarrow> error + nat list"

text \<open>An element handle is a position in the table; a position outside it is stale.\<close>

definition element_at :: "document \<Rightarrow> nat \<Rightarrow> element option" where
  "element_at d i = (if i < length (elements d) then Some (elements d ! i) else None)"

text \<open>\<^verbatim>\<open>elementHandle.evaluate(script)\<close>.\<close>

definition evaluate :: "document \<Rightarrow> nat \<Rightarrow> (element \<Rightarrow> error + 'a) \<Rightarrow> error + 'a" where
  "evaluate d i script =
     (case element_at d i of
        None \<Rightarrow> Inl DetachedError
      | Some e \<Rightarrow> (case evaluate_error e of Some x \<Rightarrow> Inl x | None \<Rightarrow> script e))"

definition getAttribute :: "element \<Rightarrow> string \<Rightarrow> string option" where
  "getAttribute e a = map_of (attributes e) a"

text \<open>\<^verbatim>\<open>el.hasAttribute(a) && el.getAttribute(a)\<close>: present and not empty.\<close>

definition attribute_set :: "element \<Rightarrow> string \<Rightarrow> string option" where
  "attribute_set e a =
     (case getAttribute e a of None \<Rightarrow> None | Some v \<Rightarrow> if v = [] then None else Some v)"

text \<open>The string an attribute reflects into its property: empty when it is absent.\<close>

definition reflected :: "(string \<times> string) list \<Rightarrow> string \<Rightarrow> string" where
  "reflected attrs a = (case map_of attrs a of None \<Rightarrow> [] | Some v \<Rightarrow> v)"

text \<open>\<^verbatim>\<open>el.classList\<close>: the tokens of the \<^verbatim>\<open>class\<close> attribute.\<close>

definition classList :: "element \<Rightarrow> string list" where
  "classList e = first_occurrences [] (tokens_acc [] (reflected (attributes e) ''class''))"

text \<open>\<^verbatim>\<open>parent.children\<close>: the elements whose parent is \<open>p\<close>, in document order.\<close>

definition children :: "document \<Rightarrow> nat \<Rightarrow> nat list" where
  "children d p =
     filter (\<lambda>j. parentElement (elements d ! j) = Some p) [0 ..< length (elements d)]"

text \<open>\<^verbatim>\<open>xs.indexOf(x) + 1\<close>: 0 when \<open>x\<close> is not in \<open>xs\<close>.\<close>

fun indexOf_plus1 :: "nat list \<Rightarrow> nat \<Rightarrow> nat" where
  "indexOf_plus1 [] x = 0"
| "indexOf_plus1 (y # ys) x =
     (if y = x then 1 else (case indexOf_plus1 ys x of 0 \<Rightarrow> 0 | Suc k \<Rightarrow> Suc (Suc k)))"

section \<open>Visibility Evaluator\<close>

record BoundingInfo =
  isVisible :: bool
  width :: real
  height :: real

definition not_visible :: BoundingInfo where
  "not_visible = \<lparr>isVisible = False, width = 0, height = 0\<rparr>"

text \<open>The script of \<^verbatim>\<open>getElementVisibilityAndBoundingBox\<close>.\<close>

definition isActuallyVisible :: "element \<Rightarrow> bool" where
  "isActuallyVisible e =
     (display e \<noteq> ''none'' \<and> visibility e \<noteq> ''hidden''
      \<and> (case opacity e of None \<Rightarrow> False | Some v \<Rightarrow> v > 0)
      \<and> offsetWidth e > 0 \<and> offsetHeight e > 0)"

definition getElementVisibilityAndBoundingBox :: "document \<Rightarrow> nat \<Rightarrow> BoundingInfo" where
  "getElementVisibilityAndBoundingBox d i =
     (case element_at d i of
        None \<Rightarrow> not_visible
      | Some e \<Rightarrow>
          (case boundingBox e of
             Inl err \<Rightarrow> not_visible
           | Inr None \<Rightarrow> not_visible
           | Inr (Some (w, h)) \<Rightarrow>
               (case evaluate d i (\<lambda>el. Inr (isActuallyVisible el)) of
                  Inl err \<Rightarrow> not_visible
                | Inr v \<Rightarrow> \<lparr>isVisible = v, width = w, height = h\<rparr>)))"

section \<open>Locator Generator\<close>

text \<open>The tag-and-class selector with the \<^verbatim>\<open>role\<close> and \<^verbatim>\<open>type\<close> fragments.\<close>

definition structural_selector :: "element \<Rightarrow> string" where
  "structural_selector e =
     (let s0 = toLowerCase (tagName e);
          s1 = (if truthy (className e)
                then (let cl = filter (\<lambda>c. c \<noteq> [] \<and> CHR '' '' \<notin> set c) (classList e)
                      in if length cl > 0 then s0 @ ''.'' @ join_dot cl else s0)
                else s0);
          s2 = (case attribute_set e ''role'' of
                  None \<Rightarrow> s1 | Some v \<Rightarrow> s1 @ attribute_equals ''role'' v);
          s3 = (case attribute_set e ''type'' of
                  None \<Rightarrow> s2 | Some v \<Rightarrow> s2 @ attribute_equals ''type'' v)
      in s3)"

text \<open>
  The positional suffix. An exception of the uniqueness query is caught inside the
  script and leaves the selector as it is.
\<close>

definition nth_of_type_suffix :: "document \<Rightarrow> nat \<Rightarrow> element \<Rightarrow> string \<Rightarrow> string" where
  "nth_of_type_suffix d i e selector =
     (case querySelectorAll d selector of
        Inl err \<Rightarrow> selector
      | Inr ms \<Rightarrow>
          if length ms > 1 then
            (case parentElement e of
               None \<Rightarrow> selector
             | Some p \<Rightarrow>
                 (let siblings = children d p;
                      sameTagSiblings =
                        filter (\<lambda>s. tagName (elements d ! s) = tagName e) siblings;
                      index = indexOf_plus1 sameTagSiblings i
                  in if index > 0
                     then selector @ '':nth-of-type('' @ string_of_nat index @ '')''
                     else selector))
          else selector)"

text \<open>What the script does once the id rule did not return.\<close>

definition locator_after_id :: "document \<Rightarrow> nat \<Rightarrow> element \<Rightarrow> string" where
  "locator_after_id d i e =
     (case attribute_set e ''data-testid'' of
        Some v \<Rightarrow> attribute_equals ''data-testid'' v
      | None \<Rightarrow>
     (case attribute_set e ''data-test-id'' of
        Some v \<Rightarrow> attribute_equals ''data-test-id'' v
      | None \<Rightarrow>
     (case attribute_set e ''name'' of
        Some v \<Rightarrow> attribute_equals ''name'' v
      | None \<Rightarrow> nth_of_type_suffix d i e (structural_selector e))))"

text \<open>
  The script of \<^verbatim>\<open>generateCssLocator\<close>. The uniqueness query of the id rule is not
  guarded inside the script: its exception ends the script.
\<close>

definition locator_script :: "document \<Rightarrow> nat \<Rightarrow> element \<Rightarrow> error + string" where
  "locator_script d i e =
     (if truthy (el_id e) then
        (case querySelectorAll d (''#'' @ to_string (el_id e)) of
           Inl err \<Rightarrow> Inl err
         | Inr ms \<Rightarrow>
             if length ms = 1 then Inr (''#'' @ to_string (el_id e))
             else Inr (locator_after_id d i e))
      else Inr (locator_after_id d i e))"

text \<open>\<^verbatim>\<open>generateCssLocator\<close>: \<open>None\<close> is the script's \<^verbatim>\<open>null\<close>.\<close>

definition generateCssLocator :: "document \<Rightarrow> nat \<Rightarrow> string option" where
  "generateCssLocator d i =
     (case evaluate d i (locator_script d i) of Inl err \<Rightarrow> None | Inr s \<Rightarrow> Some s)"

section \<open>Name Extractor\<close>

text \<open>
  \<^verbatim>\<open>document.querySelector(sel)\<close>: the first match of the selector, if any.
\<close>

definition querySelector :: "document \<Rightarrow> string \<Rightarrow> error + element option" where
  "querySelector d sel =
     (case querySelectorAll d sel of
        Inl err \<Rightarrow> Inl err
      | Inr [] \<Rightarrow> Inr None
      | Inr (j # js) \<Rightarrow> Inr (element_at d j))"

text \<open>
  The text of the parent when the parent is a \<^verbatim>\<open>label\<close> with rendered text.
\<close>

definition parent_label_text :: "document \<Rightarrow> element \<Rightarrow> string option" where
  "parent_label_text d e =
     (case parentElement e of
        None \<Rightarrow> None
      | Some p \<Rightarrow>
          (case element_at d p of
             None \<Rightarrow> None
           | Some pe \<Rightarrow>
               if toLowerCase (tagName pe) = ''label'' \<and> innerText pe \<noteq> []
               then Some (innerText pe) else None))"

text \<open>
  The last rule: the tag name with the id or the first class. \<^verbatim>\<open>el.className.split\<close>
  is a function only when \<^verbatim>\<open>el.className\<close> is a string; on an object the call throws.
\<close>

definition fallback_name :: "element \<Rightarrow> error + string" where
  "fallback_name e =
     (let name0 = toLowerCase (tagName e)
      in if truthy (el_id e) then Inr (name0 @ '' (ID: '' @ to_string (el_id e) @ '')'')
         else if truthy (className e)
         then (case className e of
                 JString c \<Rightarrow> Inr (name0 @ '' (Class: '' @ split_space_first c @ '')'')
               | JObject c \<Rightarrow> Inl TypeError)
         else Inr name0)"

text \<open>The rules of the script after the associated-label rule.\<close>

definition name_after_label :: "document \<Rightarrow> element \<Rightarrow> real \<Rightarrow> error + string" where
  "name_after_label d e maxLength =
     (case parent_label_text d e of
        Some t \<Rightarrow> Inr (substring0 (trim t) maxLength)
      | None \<Rightarrow>
     (case attribute_set e ''title'' of
        Some v \<Rightarrow> Inr (substring0 (trim v) maxLength)
      | None \<Rightarrow>
     (case attribute_set e ''aria-label'' of
        Some v \<Rightarrow> Inr (substring0 (trim v) maxLength)
      | None \<Rightarrow>
     (case attribute_set e ''placeholder'' of
        Some v \<Rightarrow> Inr (substring0 (trim v) maxLength)
      | None \<Rightarrow>
     (case attribute_set e ''alt'' of
        Some v \<Rightarrow> Inr (substring0 (trim v) maxLength)
      | None \<Rightarrow>
     (if innerText e \<noteq> [] \<and> length (trim (innerText e)) > 0
      then (let text = trim (innerText e)
            in Inr (substring0 text (min (real (length text)) maxLength)))
      else
        (case fallback_name e of
           Inl err \<Rightarrow> Inl err
         | Inr name1 \<Rightarrow> Inr (substring0 name1 maxLength))))))))"

text \<open>
  The script of \<^verbatim>\<open>getElementName\<close>. The label query is built from the id and is
  not guarded: its exception ends the script, as does the exception of the last rule.
\<close>

definition name_script :: "document \<Rightarrow> real \<Rightarrow> element \<Rightarrow> error + string" where
  "name_script d maxLength e =
     (if truthy (el_id e) then
        (case querySelector d (''label'' @ attribute_equals ''for'' (to_string (el_id e))) of
           Inl err \<Rightarrow> Inl err
         | Inr None \<Rightarrow> name_after_label d e maxLength
         | Inr (Some label) \<Rightarrow>
             if innerText label \<noteq> []
             then Inr (substring0 (trim (innerText label)) maxLength)
             else name_after_label d e maxLength)
      else name_after_label d e maxLength)"

definition getElementName :: "document \<Rightarrow> nat \<Rightarrow> real \<Rightarrow> error + string" where
  "getElementName d i maxLength = evaluate d i (name_script d maxLength)"

section \<open>Inventory Store and Traversal Engine\<close>

record ExtractedLocator =
  locator :: string
  name :: string
  count :: nat

text \<open>
  The options after the defaults have been filled in. Each is a number the caller
  passes unchecked; a finite number is modelled, of either sign and with or without a
  fraction.
\<close>

record LocatorExtractionOptions =
  minElementSize :: real
  dynamicElementObservationInterval :: real
  nameMaxLength :: real

definition default_options :: LocatorExtractionOptions where
  "default_options =
     \<lparr>minElementSize = 5, dynamicElementObservationInterval = 1000, nameMaxLength = 50\<rparr>"

text \<open>\<^verbatim>\<open>allFoundElements\<close>: a map from the locator string to its entry.\<close>

type_synonym inventory = "string \<rightharpoonup> ExtractedLocator"

text \<open>
  A page or frame: its document, the answer of the driver's
  \<^verbatim>\<open>context.locator(sel).count()\<close> to a selector string, and the answer of the
  enumeration \<^verbatim>\<open>context.$$(...)\<close>: a rejection or the candidates in order. A
  candidate is an element handle together with the answer of its
  \<^verbatim>\<open>contentFrame()\<close>: a rejection, no frame, or the nested frame.
\<close>

datatype frame_context =
  Context (doc: document) (locator_count: "string \<Rightarrow> error + nat")
          (query_all: "error + candidate list")
and candidate =
  Candidate (handle: nat) (contentFrame: "error + frame_context option")

text \<open>The test that sends a candidate to \<^verbatim>\<open>continue\<close>.\<close>

definition too_small_or_hidden :: "LocatorExtractionOptions \<Rightarrow> BoundingInfo \<Rightarrow> bool" where
  "too_small_or_hidden cfg b =
     (\<not> isVisible b \<or> width b < minElementSize cfg \<or> height b < minElementSize cfg)"

text \<open>The test of the parent inside the conflict rule.\<close>

definition parent_interactable :: "LocatorExtractionOptions \<Rightarrow> BoundingInfo \<Rightarrow> bool" where
  "parent_interactable cfg b =
     (isVisible b \<and> width b \<ge> minElementSize cfg \<and> height b \<ge> minElementSize cfg)"

text \<open>
  The first guarded block of the loop body: the parent's entry is deleted when the
  parent has a locator, the locator is a key of the inventory and the parent is
  interactable. A rejection inside the block is caught and leaves the inventory as it
  is at that point; the disposal of the parent handle comes after the deletion and
  changes nothing here.
\<close>

definition resolve_parent_conflict ::
  "LocatorExtractionOptions \<Rightarrow> document \<Rightarrow> nat \<Rightarrow> inventory \<Rightarrow> inventory" where
  "resolve_parent_conflict cfg d i found =
     (case evaluate d i (\<lambda>el. Inr (parentElement el)) of
        Inl err \<Rightarrow> found
      | Inr None \<Rightarrow> found
      | Inr (Some p) \<Rightarrow>
          (case generateCssLocator d p of
             None \<Rightarrow> found
           | Some parentLocator \<Rightarrow>
               if parentLocator \<noteq> [] \<and> found parentLocator \<noteq> None
               then (if parent_interactable cfg (getElementVisibilityAndBoundingBox d p)
                     then found(parentLocator := None) else found)
               else found))"

text \<open>
  The second guarded block: the locator is counted by the driver and, when the count
  is positive, the name is extracted and the entry written. A rejection of the count
  or of the name extraction is caught and nothing is written.
\<close>

definition validate_and_commit ::
  "LocatorExtractionOptions \<Rightarrow> document \<Rightarrow> (string \<Rightarrow> error + nat) \<Rightarrow> nat \<Rightarrow> string
     \<Rightarrow> inventory \<Rightarrow> inventory" where
  "validate_and_commit cfg d lc i l found =
     (case lc l of
        Inl err \<Rightarrow> found
      | Inr n \<Rightarrow>
          if n > 0 then
            (case getElementName d i (nameMaxLength cfg) of
               Inl err \<Rightarrow> found
             | Inr elementName \<Rightarrow>
                 found(l \<mapsto> \<lparr>locator = l, name = elementName, count = n\<rparr>))
          else found)"

text \<open>
  The loop body up to the frame handling. \<open>None\<close>: the candidate left the body by
  \<^verbatim>\<open>continue\<close> and the inventory is untouched. \<open>Some found'\<close>: the inventory when
  the body reaches \<^verbatim>\<open>element.contentFrame()\<close>.
\<close>

definition process_candidate ::
  "LocatorExtractionOptions \<Rightarrow> document \<Rightarrow> (string \<Rightarrow> error + nat) \<Rightarrow> nat
     \<Rightarrow> inventory \<Rightarrow> inventory option" where
  "process_candidate cfg d lc i found =
     (if too_small_or_hidden cfg (getElementVisibilityAndBoundingBox d i) then None
      else
        (case generateCssLocator d i of
           None \<Rightarrow> None
         | Some l \<Rightarrow>
             if l = [] then None
             else Some (validate_and_commit cfg d lc i l
                          (resolve_parent_conflict cfg d i found))))"

text \<open>
  \<^verbatim>\<open>traverseAndExtract\<close>. The result is the exception that left the pass, if any,
  and the inventory as the pass left it: what was written before an exception stays
  written. Neither the enumeration, nor \<^verbatim>\<open>contentFrame()\<close>, nor the nested pass is
  inside a guarded block.
\<close>

fun traverseAndExtract ::
  "LocatorExtractionOptions \<Rightarrow> frame_context \<Rightarrow> inventory \<Rightarrow> error option \<times> inventory"
and for_each_element ::
  "LocatorExtractionOptions \<Rightarrow> document \<Rightarrow> (string \<Rightarrow> error + nat) \<Rightarrow> candidate list
     \<Rightarrow> inventory \<Rightarrow> error option \<times> inventory"
where
  "traverseAndExtract cfg (Context d lc (Inl err)) found = (Some err, found)"
| "traverseAndExtract cfg (Context d lc (Inr cs)) found = for_each_element cfg d lc cs found"
| "for_each_element cfg d lc [] found = (None, found)"
| "for_each_element cfg d lc (Candidate i fr # rest) found =
     (case process_candidate cfg d lc i found of
        None \<Rightarrow> for_each_element cfg d lc rest found
      | Some found1 \<Rightarrow>
          (case fr of
             Inl err \<Rightarrow> (Some err, found1)
           | Inr None \<Rightarrow> for_each_element cfg d lc rest found1
           | Inr (Some frameElement) \<Rightarrow>
               (case traverseAndExtract cfg frameElement found1 of
                  (Some err, found2) \<Rightarrow> (Some err, found2)
                | (None, found2) \<Rightarrow> for_each_element cfg d lc rest found2)))"

section \<open>A pass in flight\<close>

text \<open>
  The loop awaits the driver inside every candidate, so other code runs while a pass is
  under way. A pass in flight is the stack of the loops it is inside, innermost first:
  each with its document, its counter and the candidates it has still to visit. The
  empty stack is a pass that has ended.
\<close>

type_synonym pass_state = "(document \<times> (string \<Rightarrow> error + nat) \<times> candidate list) list"

text \<open>
  The start of \<^verbatim>\<open>traverseAndExtract\<close> on a context: its enumeration opens a loop, and
  a rejected enumeration ends the whole pass.
\<close>

fun enter :: "frame_context \<Rightarrow> pass_state \<Rightarrow> pass_state" where
  "enter (Context d lc (Inl err)) stack = []"
| "enter (Context d lc (Inr cs)) stack = (d, lc, cs) # stack"

text \<open>
  One turn of the innermost loop: the body for its next candidate, or its end when no
  candidate is left. An exception that leaves the body ends the pass, with the
  inventory as written so far. The body of one candidate is taken as one turn; its own
  awaits let other code run inside it as well, which touches neither the timers nor
  the flags of the session.
\<close>

fun pass_step ::
  "LocatorExtractionOptions \<Rightarrow> pass_state \<Rightarrow> inventory \<Rightarrow> pass_state \<times> inventory" where
  "pass_step cfg [] found = ([], found)"
| "pass_step cfg ((d, lc, []) # stack) found = (stack, found)"
| "pass_step cfg ((d, lc, Candidate i fr # rest) # stack) found =
     (case process_candidate cfg d lc i found of
        None \<Rightarrow> ((d, lc, rest) # stack, found)
      | Some found1 \<Rightarrow>
          (case fr of
             Inl err \<Rightarrow> ([], found1)
           | Inr None \<Rightarrow> ((d, lc, rest) # stack, found1)
           | Inr (Some frameElement) \<Rightarrow> (enter frameElement ((d, lc, rest) # stack), found1)))"

text \<open>A number of turns of a pass in flight.\<close>

fun pass_steps ::
  "LocatorExtractionOptions \<Rightarrow> nat \<Rightarrow> pass_state \<Rightarrow> inventory \<Rightarrow> pass_state \<times> inventory" where
  "pass_steps cfg 0 stack found = (stack, found)"
| "pass_steps cfg (Suc n) stack found =
     (case pass_step cfg stack found of (stack1, found1) \<Rightarrow> pass_steps cfg n stack1 found1)"

section \<open>Observation Loop\<close>

text \<open>
  The state the closures of \<^verbatim>\<open>extractVisibleElementLocators\<close> share, together with
  the runtime's interval timers: \<open>timers\<close> are the timers installed by
  \<^verbatim>\<open>setInterval\<close> and not yet cleared, \<open>next_timer\<close> is the next fresh timer.
  A timer is an object of the runtime, so \<^verbatim>\<open>if (pollingIntervalId)\<close> asks whether
  one is remembered.
  \<open>pulse_passes\<close> counts the passes that timer pulses have started, and
  \<open>in_flight\<close> holds those passes, each as far as it has come.
\<close>

record session =
  allFoundElements :: inventory
  pollingIntervalId :: "nat option"
  stopPolling :: bool
  timers :: "nat list"
  next_timer :: nat
  pulse_passes :: nat
  in_flight :: "pass_state list"

definition clearInterval :: "nat \<Rightarrow> session \<Rightarrow> session" where
  "clearInterval t s = s\<lparr>timers := removeAll t (timers s)\<rparr>"

definition setInterval :: "session \<Rightarrow> session \<times> nat" where
  "setInterval s =
     (s\<lparr>timers := next_timer s # timers s, next_timer := Suc (next_timer s)\<rparr>, next_timer s)"

definition startDynamicElementObservation :: "session \<Rightarrow> session" where
  "startDynamicElementObservation s =
     (let s1 = (case pollingIntervalId s of Some t \<Rightarrow> clearInterval t s | None \<Rightarrow> s);
          (s2, t) = setInterval s1
      in s2\<lparr>pollingIntervalId := Some t\<rparr>)"

text \<open>
  The body of the interval callback, called with the page as it is at that pulse. When
  polling has not been stopped it starts a pass and awaits it: the pass is in flight
  from then on, and the callback itself does nothing more. An exception of the pass
  rejects the callback's promise.
\<close>

definition interval_callback :: "frame_context \<Rightarrow> session \<Rightarrow> session" where
  "interval_callback page s =
     (if stopPolling s then
        (case pollingIntervalId s of
           Some t \<Rightarrow> (clearInterval t s)\<lparr>pollingIntervalId := None\<rparr>
         | None \<Rightarrow> s)
      else
        s\<lparr>pulse_passes := Suc (pulse_passes s), in_flight := in_flight s @ [enter page []]\<rparr>)"

text \<open>A timer fires only while it is installed.\<close>

definition pulse :: "nat \<Rightarrow> frame_context \<Rightarrow> session \<Rightarrow> session" where
  "pulse t page s = (if t \<in> set (timers s) then interval_callback page s else s)"

text \<open>
  The pass at position \<open>k\<close> among those in flight takes its next turn, on the
  inventory as it is then. Nothing stops a pass in flight: neither
  \<^verbatim>\<open>stopObservation\<close> nor another pass.
\<close>

definition advance :: "LocatorExtractionOptions \<Rightarrow> nat \<Rightarrow> session \<Rightarrow> session" where
  "advance cfg k s =
     (if k < length (in_flight s) then
        (case pass_step cfg (in_flight s ! k) (allFoundElements s) of
           (stack, found) \<Rightarrow>
             s\<lparr>allFoundElements := found, in_flight := (in_flight s)[k := stack]\<rparr>)
      else s)"

definition stopObservation :: "session \<Rightarrow> session" where
  "stopObservation s =
     (let s1 = s\<lparr>stopPolling := True\<rparr>
      in case pollingIntervalId s1 of
           Some t \<Rightarrow> (clearInterval t s1)\<lparr>pollingIntervalId := None\<rparr>
         | None \<Rightarrow> s1)"

definition getLocators :: "session \<Rightarrow> inventory" where
  "getLocators s = allFoundElements s"

text \<open>
  \<^verbatim>\<open>extractVisibleElementLocators\<close>: the first pass over the page, awaited to its
  end before anything of the session is handed out, then the start of the observation.
  An exception of the first pass rejects the call.
\<close>

definition extractVisibleElementLocators ::
  "LocatorExtractionOptions \<Rightarrow> frame_context \<Rightarrow> error + session" where
  "extractVisibleElementLocators cfg page =
     (case traverseAndExtract cfg page Map.empty of
        (Some err, found) \<Rightarrow> Inl err
      | (None, found) \<Rightarrow>
          Inr (startDynamicElementObservation
                 \<lparr>allFoundElements = found, pollingIntervalId = None, stopPolling = False,
                  timers = [], next_timer = 0, pulse_passes = 0, in_flight = []\<rparr>))"

text \<open>
  What can happen to a session: a call of one of its functions, a timer pulse, or the
  next turn of a pass in flight.
\<close>

datatype event = Start | Stop | Pulse nat frame_context | Advance nat

fun step :: "LocatorExtractionOptions \<Rightarrow> event \<Rightarrow> session \<Rightarrow> session" where
  "step cfg Start s = startDynamicElementObservation s"
| "step cfg Stop s = stopObservation s"
| "step cfg (Pulse t page) s = pulse t page s"
| "step cfg (Advance k) s = advance cfg k s"

fun run :: "LocatorExtractionOptions \<Rightarrow> event list \<Rightarrow> session \<Rightarrow> session" where
  "run cfg [] s = s"
| "run cfg (ev # evs) s = run cfg evs (step cfg ev s)"

section \<open>Notions the properties are stated with\<close>

text \<open>A string that \<^verbatim>\<open>trim()\<close> leaves as it is.\<close>

definition is_trimmed :: "string \<Rightarrow> bool" where
  "is_trimmed s = (trim s = s)"

text \<open>An element that passes the size and visibility test of the loop.\<close>

definition qualifying :: "LocatorExtractionOptions \<Rightarrow> document \<Rightarrow> nat \<Rightarrow> bool" where
  "qualifying cfg d i =
     (\<not> too_small_or_hidden cfg (getElementVisibilityAndBoundingBox d i))"

text \<open>
  The strict ancestors of an element, nearest first; the walk up the parent links is
  bounded by the number it is given.
\<close>

fun ancestors :: "nat \<Rightarrow> document \<Rightarrow> nat \<Rightarrow> nat list" where
  "ancestors 0 d i = []"
| "ancestors (Suc n) d i =
     (case element_at d i of
        None \<Rightarrow> []
      | Some e \<Rightarrow>
          (case parentElement e of None \<Rightarrow> [] | Some p \<Rightarrow> p # ancestors n d p))"


text \<open>
  The candidates of a pass, nested frames included, each with the document and the
  counter of the context it is a candidate of.
\<close>

fun context_candidates ::
  "frame_context \<Rightarrow> (document \<times> (string \<Rightarrow> error + nat) \<times> nat) list"
and candidates_of ::
  "document \<Rightarrow> (string \<Rightarrow> error + nat) \<Rightarrow> candidate list
     \<Rightarrow> (document \<times> (string \<Rightarrow> error + nat) \<times> nat) list"
where
  "context_candidates (Context d lc (Inl err)) = []"
| "context_candidates (Context d lc (Inr cs)) = candidates_of d lc cs"
| "candidates_of d lc [] = []"
| "candidates_of d lc (Candidate i fr # rest) =
     (d, lc, i)
     # (case fr of Inr (Some frameElement) \<Rightarrow> context_candidates frameElement | _ \<Rightarrow> [])
     @ candidates_of d lc rest"

text \<open>
  The positions of the elements of a document whose \<^verbatim>\<open>id\<close> attribute is the string
  \<open>v\<close>.
\<close>

definition id_matches :: "document \<Rightarrow> string \<Rightarrow> nat list" where
  "id_matches d v =
     filter (\<lambda>j. getAttribute (elements d ! j) ''id'' = Some v) [0 ..< length (elements d)]"

text \<open>
  An entry as the loop writes it under the key \<open>k\<close> for one of the given candidates:
  the candidate qualifies, the generator gives it the locator \<open>k\<close>, the counter of its
  own context gives the entry's count for \<open>k\<close>, which is positive, and the extractor
  gives it the entry's name.
\<close>

definition written_by ::
  "LocatorExtractionOptions \<Rightarrow> (document \<times> (string \<Rightarrow> error + nat) \<times> nat) list
     \<Rightarrow> string \<Rightarrow> ExtractedLocator \<Rightarrow> bool" where
  "written_by cfg cands k e =
     (locator e = k \<and> 1 \<le> count e
      \<and> (\<exists>(d, lc, i) \<in> set cands.
            qualifying cfg d i \<and> generateCssLocator d i = Some k \<and> lc k = Inr (count e)
            \<and> getElementName d i (nameMaxLength cfg) = Inr (name e)))"

text \<open>
  No enumeration and no \<^verbatim>\<open>contentFrame()\<close> of the pass is rejected, nested frames
  included.
\<close>

fun frames_answer :: "frame_context \<Rightarrow> bool"
and candidates_answer :: "candidate list \<Rightarrow> bool"
where
  "frames_answer (Context d lc (Inl err)) = False"
| "frames_answer (Context d lc (Inr cs)) = candidates_answer cs"
| "candidates_answer [] = True"
| "candidates_answer (Candidate i fr # rest) =
     ((case fr of
         Inl err \<Rightarrow> False
       | Inr None \<Rightarrow> True
       | Inr (Some frameElement) \<Rightarrow> frames_answer frameElement)
      \<and> candidates_answer rest)"

text \<open>The installed timers are exactly the one the session remembers, if any.\<close>

definition one_timer :: "session \<Rightarrow> bool" where
  "one_timer s = (timers s = (case pollingIntervalId s of None \<Rightarrow> [] | Some t \<Rightarrow> [t]))"

section \<open>Example documents\<close>

text \<open>
  An attached element with the default style, rendered at the given size, whose
  \<^verbatim>\<open>id\<close> and \<^verbatim>\<open>className\<close> properties reflect its attributes.
\<close>

definition rendered ::
  "string \<Rightarrow> (string \<times> string) list \<Rightarrow> nat option \<Rightarrow> string \<Rightarrow> int \<Rightarrow> int \<Rightarrow> element" where
  "rendered tag attrs parent txt w h =
     \<lparr>tagName = tag, attributes = attrs,
      el_id = JString (reflected attrs ''id''), className = JString (reflected attrs ''class''),
      parentElement = parent, innerText = txt,
      display = ''block'', visibility = ''visible'', opacity = Some 1,
      offsetWidth = w, offsetHeight = h,
      boundingBox = Inr (Some (real_of_int w, real_of_int h)), evaluate_error = None\<rparr>"

text \<open>
  A selector engine given by the table of its answers on one document; a selector that
  is not in the table matches nothing.
\<close>

definition selector_engine ::
  "(string \<times> (error + nat list)) list \<Rightarrow> string \<Rightarrow> error + nat list" where
  "selector_engine tbl sel = (case map_of tbl sel of Some r \<Rightarrow> r | None \<Rightarrow> Inr [])"

definition driver_count ::
  "(string \<times> (error + nat list)) list \<Rightarrow> string \<Rightarrow> error + nat" where
  "driver_count tbl sel =
     (case selector_engine tbl sel of Inl err \<Rightarrow> Inl err | Inr ms \<Rightarrow> Inr (length ms))"

text \<open>
  \<^verbatim>\<open><html><body><button id="submit-btn">Go</button></body></html>\<close>
\<close>

definition submit_elements :: "element list" where
  "submit_elements =
     [rendered ''HTML'' [] None ''Go'' 800 600,
      rendered ''BODY'' [] (Some 0) ''Go'' 800 600,
      rendered ''BUTTON'' [(''id'', ''submit-btn'')] (Some 1) ''Go'' 40 20]"

definition submit_table :: "(string \<times> (error + nat list)) list" where
  "submit_table =
     [(''html'', Inr [0]), (''body'', Inr [1]), (''button'', Inr [2]),
      (''#submit-btn'', Inr [2])]"

definition submit_document :: document where
  "submit_document =
     \<lparr>elements = submit_elements, querySelectorAll = selector_engine submit_table\<rparr>"

definition submit_page :: frame_context where
  "submit_page =
     Context submit_document (driver_count submit_table)
       (Inr [Candidate 1 (Inr None), Candidate 2 (Inr None)])"

text \<open>
  \<^verbatim>\<open><body><div id="p" style="height:0"><button id="c" style="position:absolute">Open</button></div></body>\<close>
\<close>

definition overflow_elements :: "element list" where
  "overflow_elements =
     [rendered ''HTML'' [] None ''Open'' 800 600,
      rendered ''BODY'' [] (Some 0) ''Open'' 800 600,
      rendered ''DIV'' [(''id'', ''p'')] (Some 1) ''Open'' 800 0,
      rendered ''BUTTON'' [(''id'', ''c'')] (Some 2) ''Open'' 50 20]"

definition overflow_table :: "(string \<times> (error + nat list)) list" where
  "overflow_table =
     [(''html'', Inr [0]), (''body'', Inr [1]), (''div'', Inr [2]), (''button'', Inr [3]),
      (''#p'', Inr [2]), (''#c'', Inr [3])]"

definition overflow_document :: document where
  "overflow_document =
     \<lparr>elements = overflow_elements, querySelectorAll = selector_engine overflow_table\<rparr>"

definition overflow_page :: frame_context where
  "overflow_page =
     Context overflow_document (driver_count overflow_table)
       (Inr [Candidate 1 (Inr None), Candidate 2 (Inr None), Candidate 3 (Inr None)])"

text \<open>
  \<^verbatim>\<open><body><iframe id="f"></iframe><button id="b">Buy</button></body>\<close>, once with
  the frame element's \<^verbatim>\<open>contentFrame()\<close> rejected (the frame went away after the
  element had been evaluated) and once with no frame to enter.
\<close>

definition frame_elements :: "element list" where
  "frame_elements =
     [rendered ''HTML'' [] None ''Buy'' 800 600,
      rendered ''BODY'' [] (Some 0) ''Buy'' 800 600,
      rendered ''IFRAME'' [(''id'', ''f'')] (Some 1) [] 300 200,
      rendered ''BUTTON'' [(''id'', ''b'')] (Some 1) ''Buy'' 50 20]"

definition frame_table :: "(string \<times> (error + nat list)) list" where
  "frame_table =
     [(''html'', Inr [0]), (''body'', Inr [1]), (''iframe'', Inr [2]), (''button'', Inr [3]),
      (''#f'', Inr [2]), (''#b'', Inr [3])]"

definition frame_document :: document where
  "frame_document =
     \<lparr>elements = frame_elements, querySelectorAll = selector_engine frame_table\<rparr>"

definition frame_lost_page :: frame_context where
  "frame_lost_page =
     Context frame_document (driver_count frame_table)
       (Inr [Candidate 1 (Inr None), Candidate 2 (Inl ContextDestroyed),
             Candidate 3 (Inr None)])"

definition frame_kept_page :: frame_context where
  "frame_kept_page =
     Context frame_document (driver_count frame_table)
       (Inr [Candidate 1 (Inr None), Candidate 2 (Inr None), Candidate 3 (Inr None)])"

text \<open>
  \<^verbatim>\<open><body><div id="a.b">Total</div></body>\<close>. The selector \<^verbatim>\<open>#a.b\<close> asks for an
  element with id \<^verbatim>\<open>a\<close> and class \<^verbatim>\<open>b\<close>: it matches nothing here.
\<close>

definition dotted_elements :: "element list" where
  "dotted_elements =
     [rendered ''HTML'' [] None ''Total'' 800 600,
      rendered ''BODY'' [] (Some 0) ''Total'' 800 600,
      rendered ''DIV'' [(''id'', ''a.b'')] (Some 1) ''Total'' 200 40]"

definition dotted_table :: "(string \<times> (error + nat list)) list" where
  "dotted_table =
     [(''html'', Inr [0]), (''body'', Inr [1]), (''div'', Inr [2]), (''#a.b'', Inr [])]"

definition dotted_document :: document where
  "dotted_document =
     \<lparr>elements = dotted_elements, querySelectorAll = selector_engine dotted_table\<rparr>"

text \<open>\<^verbatim>\<open><body><button title="hello world">Hi</button></body>\<close>\<close>

definition titled_elements :: "element list" where
  "titled_elements =
     [rendered ''HTML'' [] None ''Hi'' 800 600,
      rendered ''BODY'' [] (Some 0) ''Hi'' 800 600,
      rendered ''BUTTON'' [(''title'', ''hello world'')] (Some 1) ''Hi'' 50 20]"

definition titled_table :: "(string \<times> (error + nat list)) list" where
  "titled_table = [(''html'', Inr [0]), (''body'', Inr [1]), (''button'', Inr [2])]"

definition titled_document :: document where
  "titled_document =
     \<lparr>elements = titled_elements, querySelectorAll = selector_engine titled_table\<rparr>"

text \<open>
  \<^verbatim>\<open><body><div id="p"><span class="a:b">New</span></div></body>\<close>. The selector
  \<^verbatim>\<open>span.a:b\<close> is not valid: the page's query and the driver's count both throw.
\<close>

definition colon_elements :: "element list" where
  "colon_elements =
     [rendered ''HTML'' [] None ''New'' 800 600,
      rendered ''BODY'' [] (Some 0) ''New'' 800 600,
      rendered ''DIV'' [(''id'', ''p'')] (Some 1) ''New'' 200 40,
      rendered ''SPAN'' [(''class'', ''a:b'')] (Some 2) ''New'' 60 20]"

definition colon_table :: "(string \<times> (error + nat list)) list" where
  "colon_table =
     [(''html'', Inr [0]), (''body'', Inr [1]), (''div'', Inr [2]), (''span'', Inr [3]),
      (''#p'', Inr [2]), (''span.a:b'', Inl SyntaxError)]"

definition colon_document :: document where
  "colon_document =
     \<lparr>elements = colon_elements, querySelectorAll = selector_engine colon_table\<rparr>"

definition colon_page :: frame_context where
  "colon_page =
     Context colon_document (driver_count colon_table)
       (Inr [Candidate 1 (Inr None), Candidate 2 (Inr None), Candidate 3 (Inr None)])"

text \<open>
  \<^verbatim>\<open><body><div><div>Hi</div></div></body>\<close>: each \<^verbatim>\<open>div\<close> is the first
  \<^verbatim>\<open>div\<close> child of its parent.
\<close>

definition nested_elements :: "element list" where
  "nested_elements =
     [rendered ''HTML'' [] None ''Hi'' 800 600,
      rendered ''BODY'' [] (Some 0) ''Hi'' 800 600,
      rendered ''DIV'' [] (Some 1) ''Hi'' 300 100,
      rendered ''DIV'' [] (Some 2) ''Hi'' 200 50]"

definition nested_table :: "(string \<times> (error + nat list)) list" where
  "nested_table =
     [(''html'', Inr [0]), (''body'', Inr [1]), (''div'', Inr [2, 3]),
      (''div:nth-of-type(1)'', Inr [2, 3])]"

definition nested_document :: document where
  "nested_document =
     \<lparr>elements = nested_elements, querySelectorAll = selector_engine nested_table\<rparr>"

definition nested_page :: frame_context where
  "nested_page =
     Context nested_document (driver_count nested_table)
       (Inr [Candidate 1 (Inr None), Candidate 2 (Inr None), Candidate 3 (Inr None)])"

text \<open>
  \<^verbatim>\<open><body><form id="login"><input name="id"></form></body>\<close>. The control shadows
  the form's \<^verbatim>\<open>id\<close> property, so \<^verbatim>\<open>el.id\<close> of the form is the control, and the
  selector made of it is not valid.
\<close>

definition login_elements :: "element list" where
  "login_elements =
     [rendered ''HTML'' [] None [] 800 600,
      rendered ''BODY'' [] (Some 0) [] 800 600,
      (rendered ''FORM'' [(''id'', ''login'')] (Some 1) [] 300 100)
        \<lparr>el_id := JObject ''[object HTMLInputElement]''\<rparr>,
      rendered ''INPUT'' [(''name'', ''id'')] (Some 2) [] 150 20]"

definition login_table :: "(string \<times> (error + nat list)) list" where
  "login_table =
     [(''html'', Inr [0]), (''body'', Inr [1]), (''form'', Inr [2]), (''input'', Inr [3]),
      (''#login'', Inr [2]), (attribute_equals ''name'' ''id'', Inr [3]),
      (''#[object HTMLInputElement]'', Inl SyntaxError)]"

definition login_document :: document where
  "login_document =
     \<lparr>elements = login_elements, querySelectorAll = selector_engine login_table\<rparr>"

text \<open>
  \<^verbatim>\<open><body><form><input type="hidden" name="className"></form></body>\<close>. The control
  shadows the form's \<^verbatim>\<open>className\<close> property; a hidden control has no box.
\<close>

definition shadowed_elements :: "element list" where
  "shadowed_elements =
     [rendered ''HTML'' [] None [] 800 600,
      rendered ''BODY'' [] (Some 0) [] 800 600,
      (rendered ''FORM'' [] (Some 1) [] 300 100)
        \<lparr>className := JObject ''[object HTMLInputElement]''\<rparr>,
      (rendered ''INPUT'' [(''type'', ''hidden''), (''name'', ''className'')] (Some 2) [] 0 0)
        \<lparr>display := ''none'', boundingBox := Inr None\<rparr>]"

definition shadowed_table :: "(string \<times> (error + nat list)) list" where
  "shadowed_table =
     [(''html'', Inr [0]), (''body'', Inr [1]), (''form'', Inr [2]), (''input'', Inr [3]),
      (attribute_equals ''name'' ''className'', Inr [3])]"

definition shadowed_document :: document where
  "shadowed_document =
     \<lparr>elements = shadowed_elements, querySelectorAll = selector_engine shadowed_table\<rparr>"

definition shadowed_page :: frame_context where
  "shadowed_page =
     Context shadowed_document (driver_count shadowed_table)
       (Inr [Candidate 1 (Inr None), Candidate 2 (Inr None), Candidate 3 (Inr None)])"

text \<open>
  \<^verbatim>\<open><body><iframe id="f"></iframe></body>\<close> whose frame holds
  \<^verbatim>\<open><body><button data-testid="pay">Pay</button></body>\<close>. The selector of the button
  matches one element in the frame and none in the page around it.
\<close>

definition outer_elements :: "element list" where
  "outer_elements =
     [rendered ''HTML'' [] None [] 800 600,
      rendered ''BODY'' [] (Some 0) [] 800 600,
      rendered ''IFRAME'' [(''id'', ''f'')] (Some 1) [] 300 200]"

definition outer_table :: "(string \<times> (error + nat list)) list" where
  "outer_table =
     [(''html'', Inr [0]), (''body'', Inr [1]), (''iframe'', Inr [2]), (''#f'', Inr [2])]"

definition outer_document :: document where
  "outer_document =
     \<lparr>elements = outer_elements, querySelectorAll = selector_engine outer_table\<rparr>"

definition inner_elements :: "element list" where
  "inner_elements =
     [rendered ''HTML'' [] None ''Pay'' 300 200,
      rendered ''BODY'' [] (Some 0) ''Pay'' 300 200,
      rendered ''BUTTON'' [(''data-testid'', ''pay'')] (Some 1) ''Pay'' 60 24]"

definition inner_table :: "(string \<times> (error + nat list)) list" where
  "inner_table =
     [(''html'', Inr [0]), (''body'', Inr [1]), (''button'', Inr [2]),
      (attribute_equals ''data-testid'' ''pay'', Inr [2])]"

definition inner_document :: document where
  "inner_document =
     \<lparr>elements = inner_elements, querySelectorAll = selector_engine inner_table\<rparr>"

definition inner_frame :: frame_context where
  "inner_frame =
     Context inner_document (driver_count inner_table)
       (Inr [Candidate 1 (Inr None), Candidate 2 (Inr None)])"

definition framed_page :: frame_context where
  "framed_page =
     Context outer_document (driver_count outer_table)
       (Inr [Candidate 1 (Inr None), Candidate 2 (Inr (Some inner_frame))])"

section \<open>Properties\<close>

subsection \<open>Every pass overrides a fixed set of keys\<close>

text \<open>
  The deletion of the conflict rule is guarded by the presence of the key, and deleting
  an absent key changes nothing: what a pass does to the inventory, and the exception
  it ends with, do not depend on the inventory it starts from.
\<close>

lemma override_on_compose:
  "override_on (override_on f w1 T1) w2 T2 = override_on f (override_on w1 w2 T2) (T1 \<union> T2)"
  by (auto simp: override_on_def fun_eq_iff)

lemma override_on_twice: "override_on (override_on f w T) w T = override_on f w T"
  by (auto simp: override_on_def fun_eq_iff)

lemma resolve_shape:
  "\<exists>T. \<forall>found. resolve_parent_conflict cfg d i found = override_on found Map.empty T"
proof -
  have none: "\<And>g. (\<forall>found::inventory. g found = found) \<Longrightarrow>
        \<exists>T. \<forall>found. g found = override_on found Map.empty T"
    by (rule exI [of _ "{}"]) simp
  show ?thesis
  proof (cases "evaluate d i (\<lambda>el. Inr (parentElement el))")
    case (Inl err)
    then show ?thesis by (intro none) (simp add: resolve_parent_conflict_def)
  next
    case (Inr po)
    show ?thesis
    proof (cases po)
      case None
      with Inr show ?thesis by (intro none) (simp add: resolve_parent_conflict_def)
    next
      case (Some p)
      show ?thesis
      proof (cases "generateCssLocator d p")
        case None
        with Inr Some show ?thesis by (intro none) (simp add: resolve_parent_conflict_def)
      next
        case (Some pl)
        show ?thesis
        proof (cases "pl \<noteq> [] \<and> parent_interactable cfg (getElementVisibilityAndBoundingBox d p)")
          case True
          with Inr \<open>po = Some p\<close> Some show ?thesis
            by (intro exI [of _ "{pl}"])
              (auto simp: resolve_parent_conflict_def override_on_def fun_eq_iff)
        next
          case False
          with Inr \<open>po = Some p\<close> Some show ?thesis
            by (intro none) (auto simp: resolve_parent_conflict_def)
        qed
      qed
    qed
  qed
qed

lemma validate_shape:
  "\<exists>w T. \<forall>found. validate_and_commit cfg d lc i l found = override_on found w T"
proof (cases "\<exists>n nm. lc l = Inr n \<and> n > 0 \<and> getElementName d i (nameMaxLength cfg) = Inr nm")
  case True
  then obtain n nm where h: "lc l = Inr n" "n > 0" "getElementName d i (nameMaxLength cfg) = Inr nm"
    by blast
  show ?thesis
    by (rule exI [of _ "[l \<mapsto> \<lparr>locator = l, name = nm, count = n\<rparr>]"], rule exI [of _ "{l}"])
      (auto simp: validate_and_commit_def h override_on_def fun_eq_iff)
next
  case False
  then have "\<forall>found. validate_and_commit cfg d lc i l found = found"
    by (auto simp: validate_and_commit_def split: sum.splits)
  then show ?thesis
    by (intro exI [of _ Map.empty] exI [of _ "{}"]) simp
qed

lemma process_shape:
  "(\<forall>found. process_candidate cfg d lc i found = None)
   \<or> (\<exists>w T. \<forall>found. process_candidate cfg d lc i found = Some (override_on found w T))"
proof (cases "too_small_or_hidden cfg (getElementVisibilityAndBoundingBox d i)
     \<or> generateCssLocator d i = None \<or> generateCssLocator d i = Some []")
  case True
  then show ?thesis by (auto simp: process_candidate_def)
next
  case False
  then obtain l where l: "generateCssLocator d i = Some l" "l \<noteq> []" by auto
  obtain T1 where r: "\<forall>found. resolve_parent_conflict cfg d i found = override_on found Map.empty T1"
    using resolve_shape by blast
  obtain w T2 where v: "\<forall>found. validate_and_commit cfg d lc i l found = override_on found w T2"
    using validate_shape by blast
  have "\<forall>found. process_candidate cfg d lc i found
      = Some (override_on found (override_on Map.empty w T2) (T1 \<union> T2))"
    using False l by (simp add: process_candidate_def r v override_on_compose)
  then show ?thesis by blast
qed

lemma pass_shape:
  "\<exists>err w T. \<forall>f. traverseAndExtract cfg ctx f = (err, override_on f w T)"
  "\<exists>err w T. \<forall>f. for_each_element cfg d lc cs f = (err, override_on f w T)"
proof (induction cfg ctx "found::inventory" and cfg d lc cs "found::inventory"
    rule: traverseAndExtract_for_each_element.induct)
  case (1 cfg d lc err found)
  show ?case
    by (intro exI [of _ "Some err"] exI [of _ Map.empty] exI [of _ "{}"]) simp
next
  case (2 cfg d lc cs found)
  then show ?case by simp
next
  case (3 cfg d lc found)
  show ?case
    by (intro exI [of _ None] exI [of _ Map.empty] exI [of _ "{}"]) simp
next
  case (4 cfg d lc i fr rest found)
  from process_shape [of cfg d lc i] show ?case
  proof
    assume skip: "\<forall>found. process_candidate cfg d lc i found = None"
    with "4.IH"(1) [of] show ?thesis by simp
  next
    assume "\<exists>w T. \<forall>found. process_candidate cfg d lc i found = Some (override_on found w T)"
    then obtain w1 T1 where p: "\<forall>found. process_candidate cfg d lc i found = Some (override_on found w1 T1)"
      by blast
    show ?thesis
    proof (cases fr)
      case (Inl err)
      show ?thesis
        by (intro exI [of _ "Some err"] exI [of _ w1] exI [of _ T1]) (simp add: p Inl)
    next
      case (Inr fo)
      show ?thesis
      proof (cases fo)
        case None
        from "4.IH"(2) [of "override_on found w1 T1" fo] p Inr None
        obtain err w2 T2 where
          r: "\<forall>f. for_each_element cfg d lc rest f = (err, override_on f w2 T2)" by auto
        show ?thesis
          by (intro exI [of _ err] exI [of _ "override_on w1 w2 T2"] exI [of _ "T1 \<union> T2"])
            (simp add: p Inr None r override_on_compose)
      next
        case (Some frameElement)
        from "4.IH"(3) [of "override_on found w1 T1" fo frameElement] p Inr Some
        obtain err2 w2 T2 where
          n: "\<forall>f. traverseAndExtract cfg frameElement f = (err2, override_on f w2 T2)" by auto
        show ?thesis
        proof (cases err2)
          case None
          from "4.IH"(4) [of "override_on found w1 T1" fo frameElement None
              "override_on (override_on found w1 T1) w2 T2"] p Inr Some n None
          obtain err3 w3 T3 where
            r: "\<forall>f. for_each_element cfg d lc rest f = (err3, override_on f w3 T3)" by auto
          show ?thesis
            by (intro exI [of _ err3] exI [of _ "override_on (override_on w1 w2 T2) w3 T3"]
                exI [of _ "T1 \<union> T2 \<union> T3"])
              (simp add: p Inr Some n None r override_on_compose)
        next
          case (Some e)
          show ?thesis
            by (intro exI [of _ "Some e"] exI [of _ "override_on w1 w2 T2"] exI [of _ "T1 \<union> T2"])
              (simp add: p Inr \<open>fo = Some frameElement\<close> n Some override_on_compose)
        qed
      qed
    qed
  qed
qed

subsection \<open>Idempotence of a pass\<close>

text \<open>
  C5. A pass over an unchanged page, started from the inventory a pass over that page
  has left, ends with the same exception (or none) and leaves the same inventory: two
  consecutive passes over a static document give the content of the first.
\<close>

theorem pass_idempotent:
  "traverseAndExtract cfg page (snd (traverseAndExtract cfg page found))
     = traverseAndExtract cfg page found"
proof -
  obtain err w T where "\<forall>f. traverseAndExtract cfg page f = (err, override_on f w T)"
    using pass_shape(1) by blast
  then show ?thesis by (simp add: override_on_twice)
qed

theorem pass_idempotent_witness:
  "snd (traverseAndExtract default_options submit_page
          (snd (traverseAndExtract default_options submit_page Map.empty))) ''#submit-btn''
     = Some \<lparr>locator = ''#submit-btn'', name = ''Go'', count = 1\<rparr>
   \<and> snd (traverseAndExtract default_options submit_page
          (snd (traverseAndExtract default_options submit_page Map.empty))) ''body'' = None"
proof -
  have first: "snd (traverseAndExtract default_options submit_page Map.empty) ''#submit-btn''
      = Some \<lparr>locator = ''#submit-btn'', name = ''Go'', count = 1\<rparr>
    \<and> snd (traverseAndExtract default_options submit_page Map.empty) ''body'' = None"
    by code_simp
  show ?thesis
    using first pass_idempotent [of default_options submit_page Map.empty] by simp
qed

subsection \<open>A pass in flight is the pass\<close>

lemma pass_steps_add:
  "pass_steps cfg (m + n) stack found =
     (case pass_steps cfg m stack found of (stack1, found1) \<Rightarrow> pass_steps cfg n stack1 found1)"
  by (induction m arbitrary: stack found) (simp_all split: prod.splits)

text \<open>
  Turn by turn, a pass in flight does what \<^const>\<open>traverseAndExtract\<close> does: it comes
  back to the loops around it when the pass of the context ends normally, and to the
  empty stack when an exception leaves it, with the same inventory.
\<close>

lemma pass_steps_reach:
  "\<forall>stack. \<exists>n. pass_steps cfg n (enter page stack) found =
     (case traverseAndExtract cfg page found of
        (None, found') \<Rightarrow> (stack, found')
      | (Some err, found') \<Rightarrow> ([], found'))"
  "\<forall>stack. \<exists>n. pass_steps cfg n ((d, lc, cs) # stack) found =
     (case for_each_element cfg d lc cs found of
        (None, found') \<Rightarrow> (stack, found')
      | (Some err, found') \<Rightarrow> ([], found'))"
proof (induction cfg page found and cfg d lc cs found
    rule: traverseAndExtract_for_each_element.induct)
  case (1 cfg d lc err found)
  show ?case by (intro allI exI [of _ 0]) simp
next
  case (2 cfg d lc cs found)
  then show ?case by simp
next
  case (3 cfg d lc found)
  show ?case by (intro allI exI [of _ 1]) simp
next
  case (4 cfg d lc i fr rest found)
  show ?case
  proof
    fix stack
    let ?here = "(d, lc, Candidate i fr # rest) # stack"
    let ?next = "(d, lc, rest) # stack"
    show "\<exists>n. pass_steps cfg n ?here found =
       (case for_each_element cfg d lc (Candidate i fr # rest) found of
          (None, found') \<Rightarrow> (stack, found')
        | (Some err, found') \<Rightarrow> ([], found'))"
    proof (cases "process_candidate cfg d lc i found")
      case None
      from "4.IH"(1) [OF None] obtain n where
        "pass_steps cfg n ?next found =
           (case for_each_element cfg d lc rest found of
              (None, found') \<Rightarrow> (stack, found')
            | (Some err, found') \<Rightarrow> ([], found'))"
        by blast
      with None show ?thesis by (intro exI [of _ "Suc n"]) simp
    next
      case (Some found1)
      show ?thesis
      proof (cases fr)
        case (Inl err)
        with Some show ?thesis by (intro exI [of _ 1]) simp
      next
        case (Inr fo)
        show ?thesis
        proof (cases fo)
          case None
          from "4.IH"(2) [OF Some Inr None] obtain n where
            "pass_steps cfg n ?next found1 =
               (case for_each_element cfg d lc rest found1 of
                  (None, found') \<Rightarrow> (stack, found')
                | (Some err, found') \<Rightarrow> ([], found'))"
            by blast
          with Some Inr None show ?thesis by (intro exI [of _ "Suc n"]) simp
        next
          case (Some frameElement)
          note proc = \<open>process_candidate cfg d lc i found = Some found1\<close>
          obtain err2 found2 where
            r: "traverseAndExtract cfg frameElement found1 = (err2, found2)"
            by (cases "traverseAndExtract cfg frameElement found1")
          from "4.IH"(3) [OF proc Inr Some] obtain n1 where
            n1: "pass_steps cfg n1 (enter frameElement ?next) found1 =
               (case traverseAndExtract cfg frameElement found1 of
                  (None, found') \<Rightarrow> (?next, found')
                | (Some err, found') \<Rightarrow> ([], found'))"
            by blast
          show ?thesis
          proof (cases err2)
            case None
            from "4.IH"(4) [OF proc Inr Some r [symmetric] None] obtain n2 where
              n2: "pass_steps cfg n2 ?next found2 =
                 (case for_each_element cfg d lc rest found2 of
                    (None, found') \<Rightarrow> (stack, found')
                  | (Some err, found') \<Rightarrow> ([], found'))"
              by blast
            have "pass_steps cfg (Suc (n1 + n2)) ?here found =
                 (case for_each_element cfg d lc rest found2 of
                    (None, found') \<Rightarrow> (stack, found')
                  | (Some err, found') \<Rightarrow> ([], found'))"
              using proc Inr Some r None n1 n2 by (simp add: pass_steps_add)
            with proc Inr Some r None show ?thesis
              by (intro exI [of _ "Suc (n1 + n2)"]) simp
          next
            case (Some err)
            have "pass_steps cfg (Suc n1) ?here found = ([], found2)"
              using proc Inr \<open>fo = Some frameElement\<close> r Some n1 by simp
            with proc Inr \<open>fo = Some frameElement\<close> r Some show ?thesis
              by (intro exI [of _ "Suc n1"]) simp
          qed
        qed
      qed
    qed
  qed
qed

lemma pass_in_flight_ends:
  "\<exists>n. pass_steps cfg n (enter page []) found = ([], snd (traverseAndExtract cfg page found))"
proof -
  from pass_steps_reach(1) [of cfg page found] obtain n where
    "pass_steps cfg n (enter page []) found =
       (case traverseAndExtract cfg page found of
          (None, found') \<Rightarrow> ([], found')
        | (Some err, found') \<Rightarrow> ([], found'))"
    by blast
  then have "pass_steps cfg n (enter page []) found
      = ([], snd (traverseAndExtract cfg page found))"
    by (cases "traverseAndExtract cfg page found") (auto split: option.splits)
  then show ?thesis ..
qed

subsection \<open>Observation Loop\<close>

lemma advance_keeps:
  "timers (advance cfg k s) = timers s"
  "pollingIntervalId (advance cfg k s) = pollingIntervalId s"
  "stopPolling (advance cfg k s) = stopPolling s"
  "pulse_passes (advance cfg k s) = pulse_passes s"
  "next_timer (advance cfg k s) = next_timer s"
  by (simp_all add: advance_def split: prod.splits)

lemma one_timer_start: "one_timer s \<Longrightarrow> one_timer (startDynamicElementObservation s)"
  by (simp add: one_timer_def startDynamicElementObservation_def setInterval_def clearInterval_def
      split: option.splits)

lemma one_timer_stop: "one_timer s \<Longrightarrow> one_timer (stopObservation s)"
  by (simp add: one_timer_def stopObservation_def Let_def clearInterval_def split: option.splits)

lemma one_timer_pulse: "one_timer s \<Longrightarrow> one_timer (pulse t page s)"
  by (simp add: one_timer_def pulse_def interval_callback_def clearInterval_def split: option.splits)

lemma one_timer_advance: "one_timer s \<Longrightarrow> one_timer (advance cfg k s)"
  by (simp add: one_timer_def advance_keeps)

lemma one_timer_step: "one_timer s \<Longrightarrow> one_timer (step cfg ev s)"
  by (cases ev)
    (simp_all add: one_timer_start one_timer_stop one_timer_pulse one_timer_advance)

lemma one_timer_run: "one_timer s \<Longrightarrow> one_timer (run cfg evs s)"
  by (induction evs arbitrary: s) (simp_all add: one_timer_step)

lemma one_timer_extract: "extractVisibleElementLocators cfg page = Inr s \<Longrightarrow> one_timer s"
  by (auto simp: extractVisibleElementLocators_def one_timer_def startDynamicElementObservation_def
      setInterval_def split: prod.splits option.splits)

lemma start_timers: "one_timer s \<Longrightarrow> timers (startDynamicElementObservation s) = [next_timer s]"
  by (simp add: one_timer_def startDynamicElementObservation_def setInterval_def clearInterval_def
      split: option.splits)

lemma stop_timers:
  "one_timer s \<Longrightarrow>
     timers (stopObservation s) = [] \<and> pollingIntervalId (stopObservation s) = None
     \<and> stopPolling (stopObservation s)"
  by (simp add: one_timer_def stopObservation_def Let_def clearInterval_def split: option.splits)

lemma stop_idem: "stopObservation (stopObservation s) = stopObservation s"
  by (simp add: stopObservation_def Let_def clearInterval_def split: option.splits)

lemma stopped_step:
  "stopPolling s \<Longrightarrow>
     stopPolling (step cfg ev s) \<and> pulse_passes (step cfg ev s) = pulse_passes s"
  by (cases ev) (simp_all add: startDynamicElementObservation_def setInterval_def clearInterval_def
      stopObservation_def Let_def pulse_def interval_callback_def advance_keeps
      split: option.splits)

lemma stopped_run:
  "stopPolling s \<Longrightarrow>
     stopPolling (run cfg evs s) \<and> pulse_passes (run cfg evs s) = pulse_passes s"
proof (induction evs arbitrary: s)
  case Nil
  then show ?case by simp
next
  case (Cons ev evs)
  from stopped_step [OF Cons.prems, of cfg ev] Cons.IH [of "step cfg ev s"]
  show ?case by simp
qed

lemma stop_keeps:
  "pulse_passes (stopObservation s) = pulse_passes s
   \<and> in_flight (stopObservation s) = in_flight s
   \<and> allFoundElements (stopObservation s) = allFoundElements s"
  by (simp add: stopObservation_def Let_def clearInterval_def split: option.splits)

text \<open>
  C8. In every state a session reaches from its creation by calls of start and stop, by
  timer pulses and by the turns of the passes in flight: at most one timer is
  installed; a further start leaves exactly the new timer installed; a stop leaves no
  timer installed and no timer remembered; whatever happens after a stop, no pulse
  starts a pass; and a second stop changes nothing. Nothing is said of the inventory
  after a stop: a pass that was in flight at the stop goes on.
\<close>

theorem observation_loop_stop_and_single_timer:
  assumes "extractVisibleElementLocators cfg page = Inr s0"
  shows "length (timers (run cfg evs s0)) \<le> 1
    \<and> timers (startDynamicElementObservation (run cfg evs s0)) = [next_timer (run cfg evs s0)]
    \<and> timers (stopObservation (run cfg evs s0)) = []
    \<and> pollingIntervalId (stopObservation (run cfg evs s0)) = None
    \<and> pulse_passes (run cfg evs' (stopObservation (run cfg evs s0))) = pulse_passes (run cfg evs s0)
    \<and> stopObservation (stopObservation (run cfg evs s0)) = stopObservation (run cfg evs s0)"
proof -
  let ?s = "run cfg evs s0"
  have inv: "one_timer ?s"
    using assms by (simp add: one_timer_extract one_timer_run)
  have len: "length (timers ?s) \<le> 1"
    using inv by (simp add: one_timer_def split: option.splits)
  have stopped: "stopPolling (stopObservation ?s)"
    using stop_timers [OF inv] by simp
  show ?thesis
    using len start_timers [OF inv] stop_timers [OF inv] stop_idem [of ?s]
      stopped_run [OF stopped, of cfg evs'] stop_keeps [of ?s]
    by simp
qed

theorem observation_loop_stop_and_single_timer_witness:
  "extractVisibleElementLocators default_options submit_page
     = Inr \<lparr>allFoundElements = snd (traverseAndExtract default_options submit_page Map.empty),
            pollingIntervalId = Some 0, stopPolling = False, timers = [0], next_timer = 1,
            pulse_passes = 0, in_flight = []\<rparr>
   \<and> pulse_passes
        (run default_options [Pulse 0 submit_page, Start, Advance 0, Pulse 1 submit_page]
          \<lparr>allFoundElements = snd (traverseAndExtract default_options submit_page Map.empty),
            pollingIntervalId = Some 0, stopPolling = False, timers = [0], next_timer = 1,
            pulse_passes = 0, in_flight = []\<rparr>) = 2
   \<and> pulse_passes
        (run default_options [Pulse 1 submit_page, Advance 1, Start, Pulse 2 submit_page]
          (stopObservation
            (run default_options [Pulse 0 submit_page, Start, Advance 0, Pulse 1 submit_page]
              \<lparr>allFoundElements = snd (traverseAndExtract default_options submit_page Map.empty),
                pollingIntervalId = Some 0, stopPolling = False, timers = [0], next_timer = 1,
                pulse_passes = 0, in_flight = []\<rparr>))) = 2"
proof -
  let ?s0 = "\<lparr>allFoundElements = snd (traverseAndExtract default_options submit_page Map.empty),
            pollingIntervalId = Some 0, stopPolling = False, timers = [0], next_timer = 1,
            pulse_passes = 0, in_flight = []\<rparr>"
  have no_error: "fst (traverseAndExtract default_options submit_page Map.empty) = None"
    by code_simp
  have created: "extractVisibleElementLocators default_options submit_page = Inr ?s0"
    using no_error
    by (cases "traverseAndExtract default_options submit_page Map.empty")
      (simp add: extractVisibleElementLocators_def startDynamicElementObservation_def
        setInterval_def)
  have before: "pulse_passes
      (run default_options [Pulse 0 submit_page, Start, Advance 0, Pulse 1 submit_page] ?s0) = 2"
    by (simp add: pulse_def interval_callback_def startDynamicElementObservation_def
        setInterval_def clearInterval_def advance_keeps)
  note w = observation_loop_stop_and_single_timer [OF created,
        of "[Pulse 0 submit_page, Start, Advance 0, Pulse 1 submit_page]"
           "[Pulse 1 submit_page, Advance 1, Start, Pulse 2 submit_page]"]
  from w have "pulse_passes
        (run default_options [Pulse 1 submit_page, Advance 1, Start, Pulse 2 submit_page]
          (stopObservation
            (run default_options [Pulse 0 submit_page, Start, Advance 0, Pulse 1 submit_page]
              ?s0)))
      = pulse_passes
          (run default_options [Pulse 0 submit_page, Start, Advance 0, Pulse 1 submit_page] ?s0)"
    by (elim conjE)
  then have after: "pulse_passes
        (run default_options [Pulse 1 submit_page, Advance 1, Start, Pulse 2 submit_page]
          (stopObservation
            (run default_options [Pulse 0 submit_page, Start, Advance 0, Pulse 1 submit_page]
              ?s0))) = 2"
    by (simp only: before)
  show ?thesis by (intro conjI created before after)
qed

text \<open>
  A stop does not interrupt a pass in flight: its next turns still write. Below a pulse
  starts a pass, the observation is stopped, and the pass then visits the
  \<^verbatim>\<open>body\<close> and writes its entry.
\<close>

lemma pass_in_flight_writes_after_stop:
  "allFoundElements
     (run default_options [Pulse 0 submit_page, Stop]
       \<lparr>allFoundElements = snd (traverseAndExtract default_options submit_page Map.empty),
        pollingIntervalId = Some 0, stopPolling = False, timers = [0], next_timer = 1,
        pulse_passes = 0, in_flight = []\<rparr>) ''body'' = None
   \<and> allFoundElements
     (run default_options [Pulse 0 submit_page, Stop, Advance 0]
       \<lparr>allFoundElements = snd (traverseAndExtract default_options submit_page Map.empty),
        pollingIntervalId = Some 0, stopPolling = False, timers = [0], next_timer = 1,
        pulse_passes = 0, in_flight = []\<rparr>) ''body''
     = Some \<lparr>locator = ''body'', name = ''Go'', count = 1\<rparr>"
  by code_simp

subsection \<open>Names\<close>

lemma dropWhile_rev_front:
  assumes "xs = [] \<or> \<not> P (hd xs)"
  shows "dropWhile P (rev (dropWhile P (rev xs))) = rev (dropWhile P (rev xs))"
proof (cases "rev (dropWhile P (rev xs))")
  case Nil
  show ?thesis by (simp only: Nil dropWhile.simps)
next
  case (Cons y ys)
  have "rev xs = takeWhile P (rev xs) @ dropWhile P (rev xs)" by simp
  then have "xs = rev (dropWhile P (rev xs)) @ rev (takeWhile P (rev xs))"
    by (metis rev_append rev_rev_ident)
  with Cons have eq: "xs = y # ys @ rev (takeWhile P (rev xs))" by simp
  from eq have "hd xs = y" by (metis list.sel(1))
  moreover from eq have "xs \<noteq> []" by (cases xs) simp_all
  ultimately have "\<not> P y" using assms by simp
  with Cons show ?thesis by simp
qed

lemma trim_trim: "trim (trim s) = trim s"
proof -
  let ?a = "dropWhile is_space s"
  have front: "?a = [] \<or> \<not> is_space (hd ?a)"
    by (metis hd_dropWhile)
  have 1: "dropWhile is_space (rev (dropWhile is_space (rev ?a))) = rev (dropWhile is_space (rev ?a))"
    using front by (rule dropWhile_rev_front [where xs = "dropWhile is_space s" and P = is_space])
  show ?thesis
    unfolding trim_def by (simp add: 1 dropWhile_idem)
qed

lemma substring0_length: "length (substring0 s m) \<le> nat \<lfloor>m\<rfloor>"
  by (simp add: substring0_def)

lemma within_number:
  assumes "n \<le> nat \<lfloor>m\<rfloor>" and "0 \<le> m"
  shows "real n \<le> m"
proof -
  from assms(2) have "0 \<le> \<lfloor>m\<rfloor>" by simp
  then have "real (nat \<lfloor>m\<rfloor>) = of_int \<lfloor>m\<rfloor>" by simp
  moreover have "of_int \<lfloor>m\<rfloor> \<le> m" by (rule of_int_floor_le)
  moreover from assms(1) have "real n \<le> real (nat \<lfloor>m\<rfloor>)" by simp
  ultimately show ?thesis by linarith
qed

lemma substring0_min_length:
  "substring0 t (min (real (length t)) m) = substring0 t m"
proof (cases "real (length t) \<le> m")
  case True
  then have "int (length t) \<le> \<lfloor>m\<rfloor>" by (simp add: le_floor_iff)
  then have "length t \<le> nat \<lfloor>m\<rfloor>" by simp
  with True show ?thesis by (simp add: substring0_def min_def)
next
  case False
  then show ?thesis by (simp add: min_def)
qed

lemma name_after_label_form:
  assumes "name_after_label d e m = Inr s"
  shows "\<exists>t. s = take (nat \<lfloor>m\<rfloor>) t \<and> (is_trimmed t \<or> fallback_name e = Inr t)"
proof -
  let ?form = "\<exists>t. s = take (nat \<lfloor>m\<rfloor>) t \<and> (is_trimmed t \<or> fallback_name e = Inr t)"
  have tr: "?form" if "s = substring0 (trim v) m" for v
  proof -
    from that have "s = take (nat \<lfloor>m\<rfloor>) (trim v) \<and> is_trimmed (trim v)"
      by (simp add: substring0_def is_trimmed_def trim_trim)
    then show ?thesis by blast
  qed
  have fb: "?form" if "fallback_name e = Inr t" and "s = substring0 t m" for t
  proof -
    from that have "s = take (nat \<lfloor>m\<rfloor>) t \<and> fallback_name e = Inr t"
      by (simp add: substring0_def)
    then show ?thesis by blast
  qed
  from assms have
    "(\<exists>v. s = substring0 (trim v) m) \<or> (\<exists>t. fallback_name e = Inr t \<and> s = substring0 t m)"
    unfolding name_after_label_def Let_def
    by (fastforce simp: substring0_min_length split: option.splits sum.splits if_splits)
  then show ?thesis using tr fb by blast
qed

lemma name_script_form:
  assumes "name_script d m e = Inr s"
  shows "\<exists>t. s = take (nat \<lfloor>m\<rfloor>) t \<and> (is_trimmed t \<or> fallback_name e = Inr t)"
proof (cases "name_after_label d e m = Inr s")
  case True
  then show ?thesis by (rule name_after_label_form)
next
  case False
  with assms obtain lab :: element where "s = substring0 (trim (innerText lab)) m"
    by (auto simp: name_script_def split: if_splits sum.splits option.splits)
  then have "s = take (nat \<lfloor>m\<rfloor>) (trim (innerText lab))" "is_trimmed (trim (innerText lab))"
    by (simp_all add: substring0_def is_trimmed_def trim_trim)
  then show ?thesis by blast
qed

lemma getElementName_form:
  assumes "getElementName d i m = Inr s"
  shows "length s \<le> nat \<lfloor>m\<rfloor>
    \<and> (0 \<le> m \<longrightarrow> real (length s) \<le> m)
    \<and> (\<exists>t. s = take (nat \<lfloor>m\<rfloor>) t
          \<and> (is_trimmed t \<or> (\<exists>e. element_at d i = Some e \<and> fallback_name e = Inr t)))"
proof -
  from assms obtain e where e: "element_at d i = Some e" "name_script d m e = Inr s"
    by (auto simp: getElementName_def evaluate_def split: option.splits)
  from name_script_form [OF e(2)] obtain t where
    t: "s = take (nat \<lfloor>m\<rfloor>) t" "is_trimmed t \<or> fallback_name e = Inr t"
    by blast
  from t(1) have len: "length s \<le> nat \<lfloor>m\<rfloor>" by simp
  then have "0 \<le> m \<longrightarrow> real (length s) \<le> m" by (simp add: within_number)
  with len t e(1) show ?thesis by blast
qed

subsection \<open>Where the entries of the inventory come from\<close>

lemma written_by_mono:
  "written_by cfg L k e \<Longrightarrow> set L \<subseteq> set L' \<Longrightarrow> written_by cfg L' k e"
  unfolding written_by_def by blast

lemma resolve_entry:
  "resolve_parent_conflict cfg d i found k = Some e \<Longrightarrow> found k = Some e"
  by (auto simp: resolve_parent_conflict_def split: sum.splits option.splits if_splits)

lemma validate_entry:
  "validate_and_commit cfg d lc i l found k = Some e \<Longrightarrow>
     found k = Some e
     \<or> (k = l \<and> locator e = k \<and> 1 \<le> count e \<and> lc k = Inr (count e)
         \<and> getElementName d i (nameMaxLength cfg) = Inr (name e))"
  by (auto simp: validate_and_commit_def split: sum.splits if_splits)

lemma process_candidate_Some:
  assumes "process_candidate cfg d lc i found = Some found1"
  shows "qualifying cfg d i
    \<and> (\<exists>l. generateCssLocator d i = Some l \<and> l \<noteq> []
          \<and> found1 = validate_and_commit cfg d lc i l (resolve_parent_conflict cfg d i found))"
proof -
  have q: "\<not> too_small_or_hidden cfg (getElementVisibilityAndBoundingBox d i)"
    using assms by (simp add: process_candidate_def split: if_splits)
  show ?thesis
  proof (cases "generateCssLocator d i")
    case None
    with assms q show ?thesis by (simp add: process_candidate_def)
  next
    case (Some l)
    with assms q show ?thesis
      by (simp add: process_candidate_def qualifying_def split: if_splits)
  qed
qed

lemma process_entry:
  assumes "process_candidate cfg d lc i found = Some found1" and "found1 k = Some e"
  shows "found k = Some e \<or> written_by cfg [(d, lc, i)] k e"
proof -
  from process_candidate_Some [OF assms(1)] obtain l where q: "qualifying cfg d i"
    and l: "generateCssLocator d i = Some l"
    and f: "found1 = validate_and_commit cfg d lc i l (resolve_parent_conflict cfg d i found)"
    by blast
  from assms(2) have
    "validate_and_commit cfg d lc i l (resolve_parent_conflict cfg d i found) k = Some e"
    by (simp only: f)
  from validate_entry [OF this]
  show ?thesis
  proof
    assume "resolve_parent_conflict cfg d i found k = Some e"
    then have "found k = Some e" by (rule resolve_entry)
    then show ?thesis ..
  next
    assume w: "k = l \<and> locator e = k \<and> 1 \<le> count e \<and> lc k = Inr (count e)
         \<and> getElementName d i (nameMaxLength cfg) = Inr (name e)"
    then have kl: "l = k" and w1: "locator e = k" and w2: "1 \<le> count e"
      and w3: "lc k = Inr (count e)"
      and w4: "getElementName d i (nameMaxLength cfg) = Inr (name e)"
      by blast+
    from q l kl w3 w4 have
      "\<exists>(d', lc', i') \<in> set [(d, lc, i)].
         qualifying cfg d' i' \<and> generateCssLocator d' i' = Some k \<and> lc' k = Inr (count e)
         \<and> getElementName d' i' (nameMaxLength cfg) = Inr (name e)"
      by simp
    with w1 w2 have "written_by cfg [(d, lc, i)] k e"
      unfolding written_by_def by (intro conjI)
    then show ?thesis ..
  qed
qed

lemma pass_entry:
  "snd (traverseAndExtract cfg page found) k = Some e \<Longrightarrow>
     found k = Some e \<or> written_by cfg (context_candidates page) k e"
  "snd (for_each_element cfg d lc cs found) k = Some e \<Longrightarrow>
     found k = Some e \<or> written_by cfg (candidates_of d lc cs) k e"
proof (induction cfg page found and cfg d lc cs found
    rule: traverseAndExtract_for_each_element.induct)
  case (1 cfg d lc err found)
  then show ?case by simp
next
  case (2 cfg d lc cs found)
  then show ?case by simp
next
  case (3 cfg d lc found)
  then show ?case by simp
next
  case (4 cfg d lc i fr rest found)
  let ?L = "candidates_of d lc (Candidate i fr # rest)"
  have here_sub: "set [(d, lc, i)] \<subseteq> set ?L" by simp
  have later_sub: "set (candidates_of d lc rest) \<subseteq> set ?L" by auto
  have here: "\<And>f. f k = Some e \<or> written_by cfg [(d, lc, i)] k e \<Longrightarrow>
      f k = Some e \<or> written_by cfg ?L k e"
    using written_by_mono [OF _ here_sub] by blast
  have later: "\<And>f. f k = Some e \<or> written_by cfg (candidates_of d lc rest) k e \<Longrightarrow>
      f k = Some e \<or> written_by cfg ?L k e"
    using written_by_mono [OF _ later_sub] by blast
  show ?case
  proof (cases "process_candidate cfg d lc i found")
    case None
    with "4.prems" have "snd (for_each_element cfg d lc rest found) k = Some e" by simp
    from "4.IH"(1) [OF None this] show ?thesis by (rule later)
  next
    case (Some found1)
    have step: "\<And>P. found1 k = Some e \<or> P \<Longrightarrow> found k = Some e \<or> written_by cfg ?L k e \<or> P"
      using process_entry [OF Some, of k e] here [of found] by blast
    show ?thesis
    proof (cases fr)
      case (Inl err)
      with Some "4.prems" have "found1 k = Some e" by simp
      with step [of False] show ?thesis by simp
    next
      case (Inr fo)
      show ?thesis
      proof (cases fo)
        case None
        with Some Inr "4.prems" have "snd (for_each_element cfg d lc rest found1) k = Some e"
          by simp
        from "4.IH"(2) [OF Some Inr None this] later [of found1] step show ?thesis by blast
      next
        case (Some frameElement)
        obtain err2 found2 where r: "traverseAndExtract cfg frameElement found1 = (err2, found2)"
          by (cases "traverseAndExtract cfg frameElement found1")
        have inner_sub: "set (context_candidates frameElement) \<subseteq> set ?L"
          using Inr Some by auto
        have inner: "\<And>f. f k = Some e \<or> written_by cfg (context_candidates frameElement) k e \<Longrightarrow>
            f k = Some e \<or> written_by cfg ?L k e"
          using written_by_mono [OF _ inner_sub] by blast
        have nested: "found2 k = Some e \<Longrightarrow> found k = Some e \<or> written_by cfg ?L k e"
          using "4.IH"(3) [OF \<open>process_candidate cfg d lc i found = Some found1\<close> Inr Some]
            inner [of found1] step r by auto
        show ?thesis
        proof (cases err2)
          case None
          with \<open>process_candidate cfg d lc i found = Some found1\<close> Inr Some "4.prems" r
          have "snd (for_each_element cfg d lc rest found2) k = Some e" by simp
          from "4.IH"(4) [OF \<open>process_candidate cfg d lc i found = Some found1\<close> Inr Some
              r [symmetric] None this] later [of found2] nested
          show ?thesis by blast
        next
          case (Some err)
          with \<open>process_candidate cfg d lc i found = Some found1\<close> Inr
            \<open>fo = Some frameElement\<close> "4.prems" r
          have "found2 k = Some e" by simp
          with nested show ?thesis by simp
        qed
      qed
    qed
  qed
qed

subsection \<open>Keys a pass leaves absent\<close>







lemma qualifying_evaluates:
  assumes "qualifying cfg d i"
  shows "\<exists>e. element_at d i = Some e \<and> evaluate_error e = None"
  using assms
  by (auto simp: qualifying_def too_small_or_hidden_def getElementVisibilityAndBoundingBox_def
      evaluate_def not_visible_def split: option.splits sum.splits prod.splits)

lemma qualifying_interactable:
  "qualifying cfg d i = parent_interactable cfg (getElementVisibilityAndBoundingBox d i)"
  by (auto simp: qualifying_def too_small_or_hidden_def parent_interactable_def)

lemma conflict_removes_parent:
  assumes "qualifying cfg d c" and "element_at d c = Some ce" and "parentElement ce = Some p"
    and "generateCssLocator d p = Some pl" and "pl \<noteq> []" and "qualifying cfg d p"
  shows "resolve_parent_conflict cfg d c found = found(pl := None)"
proof -
  from qualifying_evaluates [OF assms(1)] assms(2) have "evaluate_error ce = None" by simp
  with assms(2,3) have "evaluate d c (\<lambda>el. Inr (parentElement el)) = Inr (Some p)"
    by (simp add: evaluate_def)
  with assms(4,5,6) show ?thesis
    by (auto simp: resolve_parent_conflict_def qualifying_interactable fun_eq_iff)
qed

subsection \<open>Conflict resolution\<close>




text \<open>
  The condition on the locator strings is needed: a parent and its child can get the
  same locator, and the entry under it then stays, written for the child.
\<close>

lemma nested_divs_share_locator:
  "generateCssLocator nested_document 2 = Some ''div:nth-of-type(1)''
   \<and> generateCssLocator nested_document 3 = Some ''div:nth-of-type(1)''
   \<and> ancestors 4 nested_document 3 = [2, 1, 0]
   \<and> qualifying default_options nested_document 2
   \<and> qualifying default_options nested_document 3
   \<and> fst (traverseAndExtract default_options nested_page Map.empty) = None
   \<and> snd (traverseAndExtract default_options nested_page Map.empty) ''div:nth-of-type(1)''
       = Some \<lparr>locator = ''div:nth-of-type(1)'', name = ''Hi'', count = 2\<rparr>"
  by code_simp

text \<open>
  C9. When a qualifying candidate with a non-empty locator is processed, its immediate
  parent is qualifying, the parent's locator is a key of the inventory, and the
  candidate's own locator then fails validation (the driver counts no match or rejects
  the selector), the parent's entry is deleted and nothing is written: the loop body
  leaves the inventory without the parent's entry and without a replacement.
\<close>

theorem parent_removed_without_replacement:
  assumes child: "qualifying cfg d i" "generateCssLocator d i = Some l" "l \<noteq> []"
    and parent: "element_at d i = Some e" "parentElement e = Some p" "qualifying cfg d p"
      "generateCssLocator d p = Some pl" "pl \<noteq> []"
    and present: "found pl = Some entry"
    and invalid: "lc l = Inr 0 \<or> (\<exists>err. lc l = Inl err)"
  shows "resolve_parent_conflict cfg d i found = found(pl := None)
    \<and> process_candidate cfg d lc i found = Some (found(pl := None))
    \<and> for_each_element cfg d lc [Candidate i (Inr None)] found = (None, found(pl := None))"
proof -
  have r: "resolve_parent_conflict cfg d i found = found(pl := None)"
    by (rule conflict_removes_parent [OF child(1) parent(1,2,4,5,3)])
  have v: "validate_and_commit cfg d lc i l (found(pl := None)) = found(pl := None)"
    using invalid by (auto simp: validate_and_commit_def)
  have p: "process_candidate cfg d lc i found = Some (found(pl := None))"
    using child by (simp add: process_candidate_def qualifying_def r v)
  from r p show ?thesis by simp
qed

theorem parent_removed_without_replacement_witness:
  "[''#p'' \<mapsto> \<lparr>locator = ''#p'', name = ''New'', count = 1\<rparr>] ''#p''
     = Some \<lparr>locator = ''#p'', name = ''New'', count = 1\<rparr>
   \<and> generateCssLocator colon_document 3 = Some ''span.a:b''
   \<and> generateCssLocator colon_document 2 = Some ''#p''
   \<and> driver_count colon_table ''span.a:b'' = Inl SyntaxError
   \<and> snd (for_each_element default_options colon_document (driver_count colon_table)
          [Candidate 3 (Inr None)]
          [''#p'' \<mapsto> \<lparr>locator = ''#p'', name = ''New'', count = 1\<rparr>]) ''#p'' = None
   \<and> snd (for_each_element default_options colon_document (driver_count colon_table)
          [Candidate 3 (Inr None)]
          [''#p'' \<mapsto> \<lparr>locator = ''#p'', name = ''New'', count = 1\<rparr>]) ''span.a:b'' = None"
proof -
  let ?e = "rendered ''SPAN'' [(''class'', ''a:b'')] (Some 2) ''New'' 60 20"
  let ?found = "[''#p'' \<mapsto> \<lparr>locator = ''#p'', name = ''New'', count = 1\<rparr>]"
  have child: "qualifying default_options colon_document 3"
    "generateCssLocator colon_document 3 = Some ''span.a:b''" "''span.a:b'' \<noteq> []"
    by code_simp+
  have el: "element_at colon_document 3 = Some ?e"
    by (simp add: element_at_def colon_document_def colon_elements_def)
  have par: "parentElement ?e = Some 2" by (simp add: rendered_def)
  have parent: "qualifying default_options colon_document 2"
    "generateCssLocator colon_document 2 = Some ''#p''" "''#p'' \<noteq> []"
    by code_simp+
  have present: "?found ''#p'' = Some \<lparr>locator = ''#p'', name = ''New'', count = 1\<rparr>"
    by simp
  have thrown: "driver_count colon_table ''span.a:b'' = Inl SyntaxError"
    by code_simp
  then have invalid: "driver_count colon_table ''span.a:b'' = Inr 0
      \<or> (\<exists>err. driver_count colon_table ''span.a:b'' = Inl err)"
    by simp
  from parent_removed_without_replacement
    [where found = ?found and lc = "driver_count colon_table",
      OF child el par parent present invalid]
  have result: "snd (for_each_element default_options colon_document (driver_count colon_table)
      [Candidate 3 (Inr None)] ?found) = ?found(''#p'' := None)"
    by simp
  have gone: "snd (for_each_element default_options colon_document (driver_count colon_table)
      [Candidate 3 (Inr None)] ?found) ''#p'' = None"
    by (simp only: result fun_upd_same)
  have none: "snd (for_each_element default_options colon_document (driver_count colon_table)
      [Candidate 3 (Inr None)] ?found) ''span.a:b'' = None"
    by (simp only: result) simp
  show ?thesis by (intro conjI present child(2) parent(2) thrown gone none)
qed

subsection \<open>Validation of locators\<close>

text \<open>
  C3. Every entry of the inventory after a pass was either there, unchanged, before the
  pass, or it carries its key as locator and a count of at least one, and the pass has
  a qualifying candidate to which the generator gave that key and for which the counter
  of the candidate's own page or frame gave that count for the key. So a locator whose
  live count in its originating context is 0 (or is rejected) at validation gets no
  entry, and from the empty inventory of a new session every key was written with a
  count of at least one live match in its originating context.
\<close>

theorem entries_validated:
  assumes "traverseAndExtract cfg page found = (err, found')" and "found' k = Some e"
  shows "found k = Some e
    \<or> (locator e = k \<and> 1 \<le> count e
        \<and> (\<exists>(d, lc, i) \<in> set (context_candidates page).
              qualifying cfg d i \<and> generateCssLocator d i = Some k
              \<and> lc k = Inr (count e)))"
proof -
  from assms have "snd (traverseAndExtract cfg page found) k = Some e" by simp
  from pass_entry(1) [OF this] show ?thesis
    unfolding written_by_def by blast
qed

theorem entries_validated_witness:
  "fst (traverseAndExtract default_options framed_page Map.empty) = None
   \<and> snd (traverseAndExtract default_options framed_page Map.empty)
        (attribute_equals ''data-testid'' ''pay'')
       = Some \<lparr>locator = attribute_equals ''data-testid'' ''pay'', name = ''Pay'', count = 1\<rparr>
   \<and> (\<exists>(d, lc, i) \<in> set (context_candidates framed_page).
          qualifying default_options d i
          \<and> generateCssLocator d i = Some (attribute_equals ''data-testid'' ''pay'')
          \<and> lc (attribute_equals ''data-testid'' ''pay'') = Inr 1)
   \<and> generateCssLocator inner_document 2 = Some (attribute_equals ''data-testid'' ''pay'')
   \<and> driver_count inner_table (attribute_equals ''data-testid'' ''pay'') = Inr 1
   \<and> driver_count outer_table (attribute_equals ''data-testid'' ''pay'') = Inr 0
   \<and> generateCssLocator colon_document 3 = Some ''span.a:b''
   \<and> driver_count colon_table ''span.a:b'' = Inl SyntaxError
   \<and> snd (traverseAndExtract default_options colon_page Map.empty) ''span.a:b'' = None"
proof -
  let ?k = "attribute_equals ''data-testid'' ''pay''"
  let ?e = "\<lparr>locator = ?k, name = ''Pay'', count = 1\<rparr>"
  have no_error: "fst (traverseAndExtract default_options framed_page Map.empty) = None"
    by code_simp
  have pass: "traverseAndExtract default_options framed_page Map.empty
      = (None, snd (traverseAndExtract default_options framed_page Map.empty))"
    using no_error by (simp add: prod_eq_iff)
  have entry: "snd (traverseAndExtract default_options framed_page Map.empty) ?k = Some ?e"
    by code_simp
  from entries_validated [OF pass entry]
  have origin: "\<exists>(d, lc, i) \<in> set (context_candidates framed_page).
      qualifying default_options d i \<and> generateCssLocator d i = Some ?k \<and> lc ?k = Inr 1"
    by simp
  have a: "generateCssLocator inner_document 2 = Some ?k" by code_simp
  have b: "driver_count inner_table ?k = Inr 1" by code_simp
  have c: "driver_count outer_table ?k = Inr 0" by code_simp
  have d: "generateCssLocator colon_document 3 = Some ''span.a:b''" by code_simp
  have e: "driver_count colon_table ''span.a:b'' = Inl SyntaxError" by code_simp
  have f: "snd (traverseAndExtract default_options colon_page Map.empty) ''span.a:b'' = None"
    by code_simp
  show ?thesis by (intro conjI no_error entry origin a b c d e f)
qed

text \<open>
  The step itself: a count of 0 and a rejected count both leave the inventory as it is.
\<close>

lemma count_zero_writes_nothing:
  "lc l = Inr 0 \<or> lc l = Inl err \<Longrightarrow> validate_and_commit cfg d lc i l found = found"
  by (auto simp: validate_and_commit_def)

subsection \<open>Visibility\<close>

lemma hidden_by_style:
  assumes "element_at d i = Some e"
    and "display e = ''none'' \<or> visibility e = ''hidden''
      \<or> (case opacity e of None \<Rightarrow> True | Some v \<Rightarrow> v \<le> 0)
      \<or> offsetWidth e = 0 \<or> offsetHeight e = 0"
  shows "\<not> isVisible (getElementVisibilityAndBoundingBox d i)"
  using assms
  by (auto simp: getElementVisibilityAndBoundingBox_def evaluate_def isActuallyVisible_def
      not_visible_def split: sum.splits option.splits prod.splits)

lemma empty_box_too_small:
  assumes "element_at d i = Some e" and "boundingBox e = Inr (Some (w, h))"
    and "w = 0 \<or> h = 0" and "0 < minElementSize cfg"
  shows "too_small_or_hidden cfg (getElementVisibilityAndBoundingBox d i)"
  using assms
  by (auto simp: getElementVisibilityAndBoundingBox_def too_small_or_hidden_def
      not_visible_def split: sum.splits)

lemma hidden_by_failure:
  assumes "element_at d i = None
      \<or> (\<exists>e. element_at d i = Some e
            \<and> (boundingBox e = Inr None \<or> (\<exists>err. boundingBox e = Inl err)
                \<or> (\<exists>err. evaluate_error e = Some err)))"
  shows "getElementVisibilityAndBoundingBox d i = \<lparr>isVisible = False, width = 0, height = 0\<rparr>"
  using assms
  by (auto simp: getElementVisibilityAndBoundingBox_def evaluate_def
      not_visible_def split: sum.splits option.splits prod.splits)

lemma skipped_candidate:
  assumes "too_small_or_hidden cfg (getElementVisibilityAndBoundingBox d i)"
  shows "process_candidate cfg d lc i found = None"
    and "for_each_element cfg d lc (Candidate i fr # rest) found
      = for_each_element cfg d lc rest found"
  using assms by (simp_all add: process_candidate_def)

lemma processed_candidate:
  assumes "process_candidate cfg d lc i found = Some found1"
  shows "isVisible (getElementVisibilityAndBoundingBox d i)
    \<and> width (getElementVisibilityAndBoundingBox d i) \<ge> minElementSize cfg
    \<and> height (getElementVisibilityAndBoundingBox d i) \<ge> minElementSize cfg"
  using assms
  by (auto simp: process_candidate_def too_small_or_hidden_def split: if_splits)

text \<open>
  C6. An element with \<^verbatim>\<open>display: none\<close>, \<^verbatim>\<open>visibility: hidden\<close>, an opacity that
  is not a positive number, or a rendered width or height of zero is reported as not
  visible and does not qualify; an element whose bounding box has width or height zero
  does not qualify under a positive \<open>minElementSize\<close>; a stale handle, a missing bounding box, a rejected
  bounding-box read and a rejected script all give \<open>isVisible = False\<close> with width
  and height 0; a candidate that does not qualify leaves the loop body at once, with the
  inventory untouched and no frame entered; and a candidate is processed further only
  if it is visible and both sizes reach \<open>minElementSize\<close>.
\<close>

theorem not_qualifying_never_entered:
  "(element_at d i = Some e
      \<and> (display e = ''none'' \<or> visibility e = ''hidden''
          \<or> (case opacity e of None \<Rightarrow> True | Some v \<Rightarrow> v \<le> 0)
          \<or> offsetWidth e = 0 \<or> offsetHeight e = 0)
      \<longrightarrow> \<not> isVisible (getElementVisibilityAndBoundingBox d i)
          \<and> too_small_or_hidden cfg (getElementVisibilityAndBoundingBox d i))
   \<and> (element_at d i = Some e \<and> boundingBox e = Inr (Some (w, h)) \<and> (w = 0 \<or> h = 0)
        \<and> 0 < minElementSize cfg
      \<longrightarrow> too_small_or_hidden cfg (getElementVisibilityAndBoundingBox d i))
   \<and> (element_at d i = None
        \<or> (\<exists>el. element_at d i = Some el
              \<and> (boundingBox el = Inr None \<or> (\<exists>err. boundingBox el = Inl err)
                  \<or> (\<exists>err. evaluate_error el = Some err)))
      \<longrightarrow> getElementVisibilityAndBoundingBox d i
            = \<lparr>isVisible = False, width = 0, height = 0\<rparr>)
   \<and> (too_small_or_hidden cfg (getElementVisibilityAndBoundingBox d i)
      \<longrightarrow> process_candidate cfg d lc i found = None
          \<and> for_each_element cfg d lc (Candidate i fr # rest) found
              = for_each_element cfg d lc rest found)
   \<and> (process_candidate cfg d lc i found = Some found1
      \<longrightarrow> isVisible (getElementVisibilityAndBoundingBox d i)
          \<and> width (getElementVisibilityAndBoundingBox d i) \<ge> minElementSize cfg
          \<and> height (getElementVisibilityAndBoundingBox d i) \<ge> minElementSize cfg)"
proof (intro conjI impI)
  assume h: "element_at d i = Some e
      \<and> (display e = ''none'' \<or> visibility e = ''hidden''
          \<or> (case opacity e of None \<Rightarrow> True | Some v \<Rightarrow> v \<le> 0)
          \<or> offsetWidth e = 0 \<or> offsetHeight e = 0)"
  then show "\<not> isVisible (getElementVisibilityAndBoundingBox d i)"
    using hidden_by_style [of d i e] by blast
  then show "too_small_or_hidden cfg (getElementVisibilityAndBoundingBox d i)"
    by (simp add: too_small_or_hidden_def)
next
  assume "element_at d i = Some e \<and> boundingBox e = Inr (Some (w, h)) \<and> (w = 0 \<or> h = 0)
        \<and> 0 < minElementSize cfg"
  then show "too_small_or_hidden cfg (getElementVisibilityAndBoundingBox d i)"
    using empty_box_too_small [of d i e w h cfg] by blast
next
  assume "element_at d i = None
        \<or> (\<exists>el. element_at d i = Some el
              \<and> (boundingBox el = Inr None \<or> (\<exists>err. boundingBox el = Inl err)
                  \<or> (\<exists>err. evaluate_error el = Some err)))"
  then show "getElementVisibilityAndBoundingBox d i
            = \<lparr>isVisible = False, width = 0, height = 0\<rparr>"
    by (rule hidden_by_failure)
next
  assume s: "too_small_or_hidden cfg (getElementVisibilityAndBoundingBox d i)"
  from skipped_candidate(1) [OF s] show "process_candidate cfg d lc i found = None" .
  from skipped_candidate(2) [OF s]
  show "for_each_element cfg d lc (Candidate i fr # rest) found
              = for_each_element cfg d lc rest found" .
next
  assume p: "process_candidate cfg d lc i found = Some found1"
  from processed_candidate [OF p]
  show "isVisible (getElementVisibilityAndBoundingBox d i)"
    and "width (getElementVisibilityAndBoundingBox d i) \<ge> minElementSize cfg"
    and "height (getElementVisibilityAndBoundingBox d i) \<ge> minElementSize cfg"
    by simp_all
qed

theorem not_qualifying_never_entered_witness:
  "element_at overflow_document 2 = Some (rendered ''DIV'' [(''id'', ''p'')] (Some 1) ''Open'' 800 0)
   \<and> offsetHeight (rendered ''DIV'' [(''id'', ''p'')] (Some 1) ''Open'' 800 0) = 0
   \<and> boundingBox (rendered ''DIV'' [(''id'', ''p'')] (Some 1) ''Open'' 800 0)
       = Inr (Some (800, 0))
   \<and> 0 < minElementSize default_options
   \<and> too_small_or_hidden default_options (getElementVisibilityAndBoundingBox overflow_document 2)
   \<and> process_candidate default_options overflow_document (driver_count overflow_table) 2 Map.empty
       = None
   \<and> element_at overflow_document 7 = None
   \<and> getElementVisibilityAndBoundingBox overflow_document 7
       = \<lparr>isVisible = False, width = 0, height = 0\<rparr>
   \<and> snd (traverseAndExtract default_options overflow_page Map.empty) ''#p'' = None
   \<and> isVisible (getElementVisibilityAndBoundingBox overflow_document 3)"
proof -
  let ?e = "rendered ''DIV'' [(''id'', ''p'')] (Some 1) ''Open'' 800 0"
  have el: "element_at overflow_document 2 = Some ?e"
    by (simp add: element_at_def overflow_document_def overflow_elements_def)
  have zero: "offsetHeight ?e = 0" by (simp add: rendered_def)
  have none: "element_at overflow_document 7 = None"
    by (simp add: element_at_def overflow_document_def overflow_elements_def)
  have pass: "snd (traverseAndExtract default_options overflow_page Map.empty) ''#p'' = None"
    by code_simp
  have q3: "\<not> too_small_or_hidden default_options
      (getElementVisibilityAndBoundingBox overflow_document 3)"
    by code_simp
  have g3: "generateCssLocator overflow_document 3 = Some ''#c''"
    by code_simp
  define f where "f = validate_and_commit default_options overflow_document
      (driver_count overflow_table) 3 ''#c''
      (resolve_parent_conflict default_options overflow_document 3 Map.empty)"
  have p3: "process_candidate default_options overflow_document (driver_count overflow_table) 3
      Map.empty = Some f"
    by (simp add: process_candidate_def q3 g3 f_def)
  note w2 = not_qualifying_never_entered [where d = overflow_document and i = 2 and e = ?e
      and cfg = default_options and lc = "driver_count overflow_table" and found = Map.empty
      and fr = "Inr None" and rest = "[]"]
  note w7 = not_qualifying_never_entered [where d = overflow_document and i = 7]
  note w3 = not_qualifying_never_entered [where d = overflow_document and i = 3
      and cfg = default_options and lc = "driver_count overflow_table" and found = Map.empty
      and ?found1.0 = f]
  have box: "boundingBox ?e = Inr (Some (800, 0))" by (simp add: rendered_def)
  have positive: "0 < minElementSize default_options" by (simp add: default_options_def)
  note wb = not_qualifying_never_entered [where d = overflow_document and i = 2 and e = ?e
      and cfg = default_options and w = 800 and h = 0]
  from wb el box positive have
    "too_small_or_hidden default_options (getElementVisibilityAndBoundingBox overflow_document 2)"
    by blast
  from w2 el zero have small:
    "too_small_or_hidden default_options (getElementVisibilityAndBoundingBox overflow_document 2)"
    by blast
  with w2 have skip:
    "process_candidate default_options overflow_document (driver_count overflow_table) 2 Map.empty
       = None"
    by blast
  from w7 none have hidden: "getElementVisibilityAndBoundingBox overflow_document 7
       = \<lparr>isVisible = False, width = 0, height = 0\<rparr>"
    by blast
  from w3 p3 have vis: "isVisible (getElementVisibilityAndBoundingBox overflow_document 3)"
    by blast
  show ?thesis by (intro conjI el zero box positive small skip none hidden pass vis)
qed

subsection \<open>Locator Generator\<close>

lemma structural_selector_prefix: "\<exists>r. structural_selector e = toLowerCase (tagName e) @ r"
  by (auto simp: structural_selector_def Let_def split: option.splits)

lemma nth_of_type_suffix_prefix: "\<exists>r. nth_of_type_suffix d i e sel = sel @ r"
  by (auto simp: nth_of_type_suffix_def Let_def split: option.splits sum.splits)

lemma attribute_equals_nonempty: "attribute_equals a v \<noteq> []"
  by (simp add: attribute_equals_def)

lemma fallback_selector_nonempty:
  assumes "tagName e \<noteq> []"
  shows "nth_of_type_suffix d i e (structural_selector e) \<noteq> []"
proof -
  obtain r1 where "structural_selector e = toLowerCase (tagName e) @ r1"
    using structural_selector_prefix by blast
  moreover obtain r2 where
    "nth_of_type_suffix d i e (structural_selector e) = structural_selector e @ r2"
    using nth_of_type_suffix_prefix by blast
  ultimately show ?thesis using assms by (simp add: toLowerCase_def)
qed

lemma locator_after_id_nonempty: "tagName e \<noteq> [] \<Longrightarrow> locator_after_id d i e \<noteq> []"
  by (simp add: locator_after_id_def attribute_equals_nonempty fallback_selector_nonempty
      split: option.splits)

lemma locator_script_nonempty:
  "tagName e \<noteq> [] \<Longrightarrow> locator_script d i e = Inr s \<Longrightarrow> s \<noteq> []"
  by (auto simp: locator_script_def locator_after_id_nonempty split: if_splits sum.splits)

text \<open>
  C10. For an element with a tag name, a script that ends without an exception returns
  a string that is not empty, and \<open>None\<close> is returned exactly when the evaluation
  fails; the structural rule yields the lower-case tag name followed by its fragments.
\<close>

theorem locator_nonempty_unless_evaluation_fails:
  assumes "element_at d i = Some e" and "tagName e \<noteq> []"
  shows "(case evaluate d i (locator_script d i) of
            Inl err \<Rightarrow> generateCssLocator d i = None
          | Inr s \<Rightarrow> generateCssLocator d i = Some s \<and> s \<noteq> [])
    \<and> (\<exists>r. nth_of_type_suffix d i e (structural_selector e) = toLowerCase (tagName e) @ r)
    \<and> toLowerCase (tagName e) \<noteq> []"
proof -
  have a: "case evaluate d i (locator_script d i) of
            Inl err \<Rightarrow> generateCssLocator d i = None
          | Inr s \<Rightarrow> generateCssLocator d i = Some s \<and> s \<noteq> []"
    using assms locator_script_nonempty [of e d i]
    by (auto simp: generateCssLocator_def evaluate_def split: sum.splits option.splits)
  obtain r1 where r1: "structural_selector e = toLowerCase (tagName e) @ r1"
    using structural_selector_prefix by blast
  obtain r2 where "nth_of_type_suffix d i e (structural_selector e) = structural_selector e @ r2"
    using nth_of_type_suffix_prefix by blast
  with r1 have b: "\<exists>r. nth_of_type_suffix d i e (structural_selector e) = toLowerCase (tagName e) @ r"
    by simp
  from assms(2) have c: "toLowerCase (tagName e) \<noteq> []" by (simp add: toLowerCase_def)
  show ?thesis by (intro conjI a b c)
qed

theorem locator_nonempty_unless_evaluation_fails_witness:
  "element_at dotted_document 2 = Some (rendered ''DIV'' [(''id'', ''a.b'')] (Some 1) ''Total'' 200 40)
   \<and> tagName (rendered ''DIV'' [(''id'', ''a.b'')] (Some 1) ''Total'' 200 40) \<noteq> []
   \<and> evaluate dotted_document 2 (locator_script dotted_document 2) = Inr ''div''
   \<and> generateCssLocator dotted_document 2 = Some ''div''
   \<and> toLowerCase (tagName (rendered ''DIV'' [(''id'', ''a.b'')] (Some 1) ''Total'' 200 40)) \<noteq> []"
proof -
  let ?e = "rendered ''DIV'' [(''id'', ''a.b'')] (Some 1) ''Total'' 200 40"
  have el: "element_at dotted_document 2 = Some ?e"
    by (simp add: element_at_def dotted_document_def dotted_elements_def)
  have tag: "tagName ?e \<noteq> []" by (simp add: rendered_def)
  have ev: "evaluate dotted_document 2 (locator_script dotted_document 2) = Inr ''div''"
    by code_simp
  note w = locator_nonempty_unless_evaluation_fails [OF el tag]
  from w have low: "toLowerCase (tagName ?e) \<noteq> []"
    by (elim conjE)
  from w have res: "case evaluate dotted_document 2 (locator_script dotted_document 2) of
            Inl err \<Rightarrow> generateCssLocator dotted_document 2 = None
          | Inr s \<Rightarrow> generateCssLocator dotted_document 2 = Some s \<and> s \<noteq> []"
    by (rule conjunct1)
  from res have gen: "generateCssLocator dotted_document 2 = Some ''div''"
    by (simp only: ev sum.case)
  show ?thesis by (intro conjI el tag ev gen low)
qed

text \<open>
  C4, as the code has it. The generator reads the property \<^verbatim>\<open>el.id\<close> and tests its
  uniqueness by the page's query for the string \<^verbatim>\<open>#\<close> followed by it, pasted as it
  is. When \<^verbatim>\<open>el.id\<close> is a string that is not empty, exactly one element of the
  document has that string as its \<^verbatim>\<open>id\<close> attribute, and the page's query for
  \<^verbatim>\<open>#\<close> followed by it finds the elements with that id, the generator returns exactly
  that selector. When moreover the driver's count for the selector is the number of
  those elements, the element qualifies and its name is extracted, the loop writes the
  entry under that selector with count 1.
\<close>

theorem id_selector_when_query_finds_the_id:
  assumes "element_at d i = Some e" and "evaluate_error e = None"
    and "el_id e = JString v" and "v \<noteq> []"
    and "length (id_matches d v) = 1"
    and "querySelectorAll d (''#'' @ v) = Inr (id_matches d v)"
  shows "generateCssLocator d i = Some (''#'' @ v)
    \<and> (lc (''#'' @ v) = Inr (length (id_matches d v)) \<and> qualifying cfg d i
        \<and> getElementName d i (nameMaxLength cfg) = Inr nm
      \<longrightarrow> (\<exists>found1. process_candidate cfg d lc i found = Some found1
            \<and> found1 (''#'' @ v) = Some \<lparr>locator = ''#'' @ v, name = nm, count = 1\<rparr>))"
proof -
  have g: "generateCssLocator d i = Some (''#'' @ v)"
    using assms
    by (simp add: generateCssLocator_def evaluate_def locator_script_def truthy_def
        to_string_def)
  have w: "\<exists>found1. process_candidate cfg d lc i found = Some found1
            \<and> found1 (''#'' @ v) = Some \<lparr>locator = ''#'' @ v, name = nm, count = 1\<rparr>"
    if c: "lc (''#'' @ v) = Inr (length (id_matches d v))" and q: "qualifying cfg d i"
      and n: "getElementName d i (nameMaxLength cfg) = Inr nm"
  proof -
    let ?f = "validate_and_commit cfg d lc i (''#'' @ v) (resolve_parent_conflict cfg d i found)"
    from q g have p: "process_candidate cfg d lc i found = Some ?f"
      by (simp add: process_candidate_def qualifying_def)
    from c assms(5) have "lc (''#'' @ v) = Inr 1" by simp
    with n have "?f (''#'' @ v) = Some \<lparr>locator = ''#'' @ v, name = nm, count = 1\<rparr>"
      by (simp add: validate_and_commit_def)
    with p show ?thesis by blast
  qed
  from g w show ?thesis by blast
qed

theorem id_selector_when_query_finds_the_id_witness:
  "el_id (rendered ''BUTTON'' [(''id'', ''submit-btn'')] (Some 1) ''Go'' 40 20)
     = JString ''submit-btn''
   \<and> id_matches submit_document ''submit-btn'' = [2]
   \<and> querySelectorAll submit_document ''#submit-btn'' = Inr [2]
   \<and> driver_count submit_table ''#submit-btn'' = Inr 1
   \<and> qualifying default_options submit_document 2
   \<and> getElementName submit_document 2 (nameMaxLength default_options) = Inr ''Go''
   \<and> generateCssLocator submit_document 2 = Some ''#submit-btn''
   \<and> (\<exists>found1. process_candidate default_options submit_document (driver_count submit_table)
          2 Map.empty = Some found1
        \<and> found1 ''#submit-btn''
            = Some \<lparr>locator = ''#submit-btn'', name = ''Go'', count = 1\<rparr>)"
proof -
  let ?e = "rendered ''BUTTON'' [(''id'', ''submit-btn'')] (Some 1) ''Go'' 40 20"
  have el: "element_at submit_document 2 = Some ?e"
    by (simp add: element_at_def submit_document_def submit_elements_def)
  have ok: "evaluate_error ?e = None" by (simp add: rendered_def)
  have id: "el_id ?e = JString ''submit-btn''" by code_simp
  have ne: "''submit-btn'' \<noteq> []" by simp
  have m: "id_matches submit_document ''submit-btn'' = [2]" by code_simp
  have q: "querySelectorAll submit_document ''#submit-btn'' = Inr [2]" by code_simp
  have k: "driver_count submit_table ''#submit-btn'' = Inr 1" by code_simp
  have qual: "qualifying default_options submit_document 2" by code_simp
  have nm: "getElementName submit_document 2 (nameMaxLength default_options) = Inr ''Go''"
    by code_simp
  have h5: "length (id_matches submit_document ''submit-btn'') = 1" by (simp only: m) simp
  have h6: "querySelectorAll submit_document (''#'' @ ''submit-btn'')
      = Inr (id_matches submit_document ''submit-btn'')"
    by (simp only: m) (simp add: q)
  have h7: "driver_count submit_table (''#'' @ ''submit-btn'')
      = Inr (length (id_matches submit_document ''submit-btn''))"
    by (simp only: m) (simp add: k)
  note w = id_selector_when_query_finds_the_id
    [where lc = "driver_count submit_table" and cfg = default_options and nm = "''Go''"
      and found = Map.empty, OF el ok id ne h5 h6]
  from w have "generateCssLocator submit_document 2 = Some (''#'' @ ''submit-btn'')"
    by (rule conjunct1)
  then have g: "generateCssLocator submit_document 2 = Some ''#submit-btn''" by simp
  from w h7 qual nm have
    "\<exists>found1. process_candidate default_options submit_document (driver_count submit_table)
          2 Map.empty = Some found1
        \<and> found1 (''#'' @ ''submit-btn'')
            = Some \<lparr>locator = ''#'' @ ''submit-btn'', name = ''Go'', count = 1\<rparr>"
    by blast
  then have written:
    "\<exists>found1. process_candidate default_options submit_document (driver_count submit_table)
          2 Map.empty = Some found1
        \<and> found1 ''#submit-btn''
            = Some \<lparr>locator = ''#submit-btn'', name = ''Go'', count = 1\<rparr>"
    by simp
  show ?thesis by (intro conjI id m q k qual nm g written)
qed

text \<open>
  C4 as stated does not hold for an id that is not a plain identifier of the selector
  language. On the page below one element has the id \<^verbatim>\<open>a.b\<close>; the query
  \<^verbatim>\<open>#a.b\<close> matches nothing, and the generator returns the tag selector.
\<close>

theorem dotted_id_not_used:
  "element_at dotted_document 2
     = Some (rendered ''DIV'' [(''id'', ''a.b'')] (Some 1) ''Total'' 200 40)
   \<and> el_id (rendered ''DIV'' [(''id'', ''a.b'')] (Some 1) ''Total'' 200 40) = JString ''a.b''
   \<and> id_matches dotted_document ''a.b'' = [2]
   \<and> generateCssLocator dotted_document 2 = Some ''div''"
proof -
  have a: "element_at dotted_document 2
     = Some (rendered ''DIV'' [(''id'', ''a.b'')] (Some 1) ''Total'' 200 40)"
    by (simp add: element_at_def dotted_document_def dotted_elements_def)
  have b: "el_id (rendered ''DIV'' [(''id'', ''a.b'')] (Some 1) ''Total'' 200 40)
      = JString ''a.b''"
    by code_simp
  have c: "id_matches dotted_document ''a.b'' = [2]"
    by code_simp
  have d: "generateCssLocator dotted_document 2 = Some ''div''"
    by code_simp
  show ?thesis by (intro conjI a b c d)
qed

text \<open>
  Nor does it hold on a form whose control is named \<^verbatim>\<open>id\<close>: the form is the only
  element with the \<^verbatim>\<open>id\<close> attribute \<^verbatim>\<open>login\<close>, but \<^verbatim>\<open>el.id\<close> is the control,
  the query made of it throws and the generator returns \<^verbatim>\<open>null\<close>. The theorem above
  asks for \<^verbatim>\<open>el.id\<close> to be a string.
\<close>

lemma shadowed_id_gives_no_locator:
  "reflected (attributes (login_elements ! 2)) ''id'' = ''login''
   \<and> id_matches login_document ''login'' = [2]
   \<and> el_id (login_elements ! 2) = JObject ''[object HTMLInputElement]''
   \<and> querySelectorAll login_document ''#login'' = Inr [2]
   \<and> querySelectorAll login_document ''#[object HTMLInputElement]'' = Inl SyntaxError
   \<and> generateCssLocator login_document 2 = None"
  by code_simp

subsection \<open>Name Extractor\<close>

text \<open>
  C7, as the code has it. Whenever the extractor returns, it returns a string; the
  string is the first \<open>\<lfloor>maxLength\<rfloor>\<close> characters (none when \<open>maxLength\<close> is
  negative) of a trimmed text or of the fallback name, so for a \<open>maxLength\<close> that
  is not negative its length is at most \<open>maxLength\<close>; and every entry a pass adds or
  changes has such a name for \<open>nameMaxLength\<close>. The extractor can also throw, and
  then the loop writes no entry.
\<close>

theorem name_within_length:
  "(getElementName d i m = Inr s \<longrightarrow>
      length s \<le> nat \<lfloor>m\<rfloor>
      \<and> (0 \<le> m \<longrightarrow> real (length s) \<le> m)
      \<and> (\<exists>t. s = take (nat \<lfloor>m\<rfloor>) t
            \<and> (is_trimmed t \<or> (\<exists>e. element_at d i = Some e \<and> fallback_name e = Inr t))))
   \<and> (traverseAndExtract cfg page found = (err, found') \<and> found' k = Some en \<longrightarrow>
        found k = Some en
        \<or> (length (name en) \<le> nat \<lfloor>nameMaxLength cfg\<rfloor>
            \<and> (0 \<le> nameMaxLength cfg \<longrightarrow> real (length (name en)) \<le> nameMaxLength cfg)))"
proof (intro conjI impI)
  assume "getElementName d i m = Inr s"
  from getElementName_form [OF this]
  show "length s \<le> nat \<lfloor>m\<rfloor>"
    and "\<exists>t. s = take (nat \<lfloor>m\<rfloor>) t
            \<and> (is_trimmed t \<or> (\<exists>e. element_at d i = Some e \<and> fallback_name e = Inr t))"
    by blast+
next
  assume "getElementName d i m = Inr s" and "0 \<le> m"
  with getElementName_form [of d i m s] show "real (length s) \<le> m" by blast
next
  assume "traverseAndExtract cfg page found = (err, found') \<and> found' k = Some en"
  then have "snd (traverseAndExtract cfg page found) k = Some en" by simp
  from pass_entry(1) [OF this]
  show "found k = Some en
        \<or> (length (name en) \<le> nat \<lfloor>nameMaxLength cfg\<rfloor>
            \<and> (0 \<le> nameMaxLength cfg \<longrightarrow> real (length (name en)) \<le> nameMaxLength cfg))"
  proof
    assume "found k = Some en"
    then show ?thesis ..
  next
    assume "written_by cfg (context_candidates page) k en"
    then obtain d' i' where "getElementName d' i' (nameMaxLength cfg) = Inr (name en)"
      unfolding written_by_def by blast
    from getElementName_form [OF this] show ?thesis by blast
  qed
qed

theorem name_within_length_witness:
  "getElementName titled_document 2 6 = Inr ''hello ''
   \<and> (0::real) \<le> 6
   \<and> real (length ''hello '') \<le> 6
   \<and> snd (traverseAndExtract default_options submit_page Map.empty) ''#submit-btn''
       = Some \<lparr>locator = ''#submit-btn'', name = ''Go'', count = 1\<rparr>
   \<and> 0 \<le> nameMaxLength default_options
   \<and> real (length (name \<lparr>locator = ''#submit-btn'', name = ''Go'', count = 1\<rparr>))
       \<le> nameMaxLength default_options"
proof -
  let ?en = "\<lparr>locator = ''#submit-btn'', name = ''Go'', count = 1\<rparr>"
  have n: "getElementName titled_document 2 6 = Inr ''hello ''" by code_simp
  have p: "(0::real) \<le> 6" by simp
  from name_within_length [of titled_document 2 6 "''hello ''"] n p
  have l: "real (length ''hello '') \<le> 6" by blast
  have no_error: "fst (traverseAndExtract default_options submit_page Map.empty) = None"
    by code_simp
  have pass: "traverseAndExtract default_options submit_page Map.empty
      = (None, snd (traverseAndExtract default_options submit_page Map.empty))"
    using no_error by (simp add: prod_eq_iff)
  have entry: "snd (traverseAndExtract default_options submit_page Map.empty) ''#submit-btn''
      = Some ?en"
    by code_simp
  have pos: "0 \<le> nameMaxLength default_options" by (simp add: default_options_def)
  have fresh: "Map.empty ''#submit-btn'' \<noteq> Some ?en" by simp
  from name_within_length [where cfg = default_options and page = submit_page
      and found = Map.empty and err = None
      and found' = "snd (traverseAndExtract default_options submit_page Map.empty)"
      and k = "''#submit-btn''" and en = ?en] pass entry fresh pos
  have bound: "real (length (name ?en)) \<le> nameMaxLength default_options" by blast
  show ?thesis by (intro conjI n p l entry pos bound)
qed

text \<open>
  C7 as stated does not hold: the text is trimmed before it is cut, so the cut can end
  on white space. With a length of 6 the title \<^verbatim>\<open>hello world\<close> gives a name that
  ends with a space.
\<close>

theorem name_truncation_leaves_space:
  "getElementName titled_document 2 6 = Inr ''hello '' \<and> \<not> is_trimmed ''hello ''"
  by code_simp

text \<open>
  Nor is the length bounded by a negative \<open>maxLength\<close>: the name is empty then.
\<close>

lemma negative_length_gives_empty_name:
  "getElementName titled_document 2 (- 1) = Inr []"
  by code_simp

text \<open>
  The extractor throws on a form whose control is named \<^verbatim>\<open>className\<close>: the form has
  no id and no text, the last rule calls \<^verbatim>\<open>split\<close> on the control, and the pass
  writes no entry for the form although its locator counts one match.
\<close>

lemma shadowed_className_throws:
  "className (shadowed_elements ! 2) = JObject ''[object HTMLInputElement]''
   \<and> generateCssLocator shadowed_document 2 = Some ''form''
   \<and> driver_count shadowed_table ''form'' = Inr 1
   \<and> getElementName shadowed_document 2 (nameMaxLength default_options) = Inl TypeError
   \<and> fst (traverseAndExtract default_options shadowed_page Map.empty) = None
   \<and> snd (traverseAndExtract default_options shadowed_page Map.empty) ''form'' = None"
  by code_simp

subsection \<open>Exceptions that leave a pass\<close>

text \<open>
  The rejections that the loop does not catch are those of the enumeration and of
  \<^verbatim>\<open>contentFrame()\<close>: a pass without them ends without an exception, whatever else
  fails.
\<close>

lemma pass_completes:
  "frames_answer page \<Longrightarrow> fst (traverseAndExtract cfg page found) = None"
  "candidates_answer cs \<Longrightarrow> fst (for_each_element cfg d lc cs found) = None"
proof (induction cfg page found and cfg d lc cs found
    rule: traverseAndExtract_for_each_element.induct)
  case (1 cfg d lc err found)
  then show ?case by simp
next
  case (2 cfg d lc cs found)
  then show ?case by simp
next
  case (3 cfg d lc found)
  then show ?case by simp
next
  case (4 cfg d lc i fr rest found)
  from "4.prems" have rest: "candidates_answer rest" by simp
  show ?case
  proof (cases "process_candidate cfg d lc i found")
    case None
    from "4.IH"(1) [OF None rest] None show ?thesis by simp
  next
    case (Some found1)
    show ?thesis
    proof (cases fr)
      case (Inl err)
      with "4.prems" show ?thesis by simp
    next
      case (Inr fo)
      show ?thesis
      proof (cases fo)
        case None
        from "4.IH"(2) [OF Some Inr None rest] Some Inr None show ?thesis by simp
      next
        case (Some frameElement)
        obtain err2 found2 where r: "traverseAndExtract cfg frameElement found1 = (err2, found2)"
          by (cases "traverseAndExtract cfg frameElement found1")
        from "4.prems" Inr Some have "frames_answer frameElement" by simp
        from "4.IH"(3) [OF \<open>process_candidate cfg d lc i found = Some found1\<close> Inr Some this] r
        have none: "err2 = None" by simp
        from "4.IH"(4) [OF \<open>process_candidate cfg d lc i found = Some found1\<close> Inr Some
            r [symmetric] none rest]
          \<open>process_candidate cfg d lc i found = Some found1\<close> Inr Some r none
        show ?thesis by simp
      qed
    qed
  qed
qed

text \<open>
  C2 fails on the code: \<^verbatim>\<open>element.contentFrame()\<close> is called outside the guarded
  blocks. On the first page below the frame element is visible and gets its entry, then
  its \<^verbatim>\<open>contentFrame()\<close> rejects: the pass ends with that exception and the button
  after it is never processed. On the second page, which differs only in that answer,
  the pass ends normally and the button has its entry.
\<close>

theorem frame_rejection_leaves_pass:
  "fst (traverseAndExtract default_options frame_lost_page Map.empty) = Some ContextDestroyed
   \<and> snd (traverseAndExtract default_options frame_lost_page Map.empty) ''#b'' = None
   \<and> fst (traverseAndExtract default_options frame_kept_page Map.empty) = None
   \<and> snd (traverseAndExtract default_options frame_kept_page Map.empty) ''#b''
       = Some \<lparr>locator = ''#b'', name = ''Buy'', count = 1\<rparr>"
  by code_simp

end
